theory Spec2Isabelle
  imports Complex_Main "HOL-Library.AList" "HOL-Library.Sublist"
begin

section \<open>Python strings\<close>

text \<open>
  A Python \<open>str\<close> is modelled as a HOL \<open>string\<close>. The model covers ASCII text:
  \<open>strip\<close> removes the ASCII characters for which \<open>str.isspace\<close> holds, \<open>upper\<close>
  maps \<open>a..z\<close> to \<open>A..Z\<close>, and the regular expression class \<open>\d\<close> is \<open>0..9\<close>.
  Conversions between \<open>int\<close> and \<open>str\<close> are total (the interpreter's configurable
  limit on the number of digits is not part of the model).
\<close>

definition is_space :: "char \<Rightarrow> bool" where
  "is_space c = (let n = (of_char c :: nat) in (9 \<le> n \<and> n \<le> 13) \<or> (28 \<le> n \<and> n \<le> 32))"

definition is_digit :: "char \<Rightarrow> bool" where
  "is_digit c = (let n = (of_char c :: nat) in 48 \<le> n \<and> n \<le> 57)"

definition upper_char :: "char \<Rightarrow> char" where
  "upper_char c = (let n = (of_char c :: nat) in if 97 \<le> n \<and> n \<le> 122 then char_of (n - 32) else c)"

definition upper :: "string \<Rightarrow> string" where
  "upper s = map upper_char s"

definition strip :: "string \<Rightarrow> string" where
  "strip s = rev (dropWhile is_space (rev (dropWhile is_space s)))"

text \<open>\<open>s.split(sep)\<close> for a one-character separator: never the empty list.\<close>

fun split_on :: "char \<Rightarrow> string \<Rightarrow> string list" where
  "split_on sep [] = [[]]"
| "split_on sep (c # cs) =
     (if c = sep then [] # split_on sep cs
      else (case split_on sep cs of [] \<Rightarrow> [[c]] | p # ps \<Rightarrow> (c # p) # ps))"

text \<open>\<open>sep.join(xs)\<close>.\<close>

fun py_join :: "string \<Rightarrow> string list \<Rightarrow> string" where
  "py_join sep [] = []"
| "py_join sep [x] = x"
| "py_join sep (x # y # ys) = x @ sep @ py_join sep (y # ys)"

text \<open>\<open>k in t\<close> on strings: \<open>k\<close> occurs in \<open>t\<close> as a contiguous substring.\<close>

fun str_contains :: "string \<Rightarrow> string \<Rightarrow> bool" where
  "str_contains [] k = (k = [])"
| "str_contains (c # cs) k = (prefix k (c # cs) \<or> str_contains cs k)"

text \<open>\<open>re.findall(r"\d+", s)\<close>: the maximal runs of digits, left to right.\<close>

function digit_runs :: "string \<Rightarrow> string list" where
  "digit_runs [] = []"
| "digit_runs (c # cs) =
     (if is_digit c then (c # takeWhile is_digit cs) # digit_runs (dropWhile is_digit cs)
      else digit_runs cs)"
  by pat_completeness auto
termination
  by (relation "measure length") (auto simp: length_dropWhile_le less_Suc_eq_le)

text \<open>\<open>int(s)\<close> on a string of decimal digits.\<close>

definition digit_val :: "char \<Rightarrow> int" where
  "digit_val c = int (of_char c) - 48"

definition int_of_digits :: "string \<Rightarrow> int" where
  "int_of_digits s = foldl (\<lambda>a c. 10 * a + digit_val c) 0 s"

text \<open>\<open>str(n)\<close> on an integer.\<close>

function str_nat :: "nat \<Rightarrow> string" where
  "str_nat n = (if n < 10 then [char_of (48 + n)] else str_nat (n div 10) @ [char_of (48 + n mod 10)])"
  by pat_completeness auto
termination
  by (relation "measure id") auto

declare str_nat.simps [simp del]

definition str_int :: "int \<Rightarrow> string" where
  "str_int i = (if i < 0 then CHR ''-'' # str_nat (nat (- i)) else str_nat (nat i))"

section \<open>Python floats\<close>

text \<open>
  A \<open>float\<close> is an IEEE 754 double: not-a-number, an infinity, or a finite value
  \<open>\<plusminus> m * 2 ^ e\<close> given by its sign (\<open>True\<close> for negative), mantissa and exponent.
  The operations below are the ones the program applies to floats, computed on the
  representation with integer arithmetic.
\<close>

datatype pyfloat = NaN | PInf | NInf | Finite bool nat int

datatype error = ValueError string | IndexError | OverflowError | LoadError string

definition smant :: "bool \<Rightarrow> nat \<Rightarrow> int" where
  "smant s m = (if s then - int m else int m)"

text \<open>The value of a finite float, as a rational number.\<close>

fun fval :: "pyfloat \<Rightarrow> rat" where
  "fval (Finite s m e) = of_int (smant s m) * 2 powi e"
| "fval _ = 0"

fun is_nan :: "pyfloat \<Rightarrow> bool" where
  "is_nan NaN = True"
| "is_nan _ = False"

text \<open>\<open>x < k\<close> for a float \<open>x\<close> and an integer \<open>k\<close>: an exact comparison.\<close>

fun float_lt_int :: "pyfloat \<Rightarrow> int \<Rightarrow> bool" where
  "float_lt_int NaN k = False"
| "float_lt_int PInf k = False"
| "float_lt_int NInf k = True"
| "float_lt_int (Finite s m e) k =
     (if 0 \<le> e then smant s m * 2 ^ nat e < k else smant s m < k * 2 ^ nat (- e))"

text \<open>The integer nearest to \<open>n / d\<close>, ties to the even one (\<open>d > 0\<close>).\<close>

definition round_half_even :: "int \<Rightarrow> int \<Rightarrow> int" where
  "round_half_even n d =
     (let q = n div d; r = n mod d in
      if 2 * r < d then q else if d < 2 * r then q + 1 else if even q then q else q + 1)"

text \<open>\<open>round(x)\<close> with one argument: an \<open>int\<close>, and an exception on NaN and infinities.\<close>

fun py_round :: "pyfloat \<Rightarrow> error + int" where
  "py_round NaN = Inl (ValueError ''cannot convert float NaN to integer'')"
| "py_round PInf = Inl OverflowError"
| "py_round NInf = Inl OverflowError"
| "py_round (Finite s m e) =
     (if 0 \<le> e then Inr (smant s m * 2 ^ nat e)
      else Inr (round_half_even (smant s m) (2 ^ nat (- e))))"

text \<open>
  \<open>x - n\<close> for a float \<open>x\<close> and an integer \<open>n\<close>. The program only subtracts
  \<open>round(x)\<close> from \<open>x\<close>; that difference is a multiple of the unit of \<open>x\<close> of magnitude
  at most one half, so the floating-point subtraction is exact.
\<close>

fun float_sub_int :: "pyfloat \<Rightarrow> int \<Rightarrow> pyfloat" where
  "float_sub_int (Finite s m e) n =
     (let d = (if 0 \<le> e then smant s m * 2 ^ nat e - n else smant s m - n * 2 ^ nat (- e))
      in Finite (d < 0) (nat \<bar>d\<bar>) (if 0 \<le> e then 0 else e))"
| "float_sub_int x n = x"

fun float_abs :: "pyfloat \<Rightarrow> pyfloat" where
  "float_abs (Finite s m e) = Finite False m e"
| "float_abs NInf = PInf"
| "float_abs x = x"

text \<open>\<open>x > y\<close> on floats: an exact comparison, false when either side is NaN.\<close>

fun float_gt :: "pyfloat \<Rightarrow> pyfloat \<Rightarrow> bool" where
  "float_gt (Finite s m e) (Finite s' m' e') =
     (let e0 = min e e' in smant s' m' * 2 ^ nat (e' - e0) < smant s m * 2 ^ nat (e - e0))"
| "float_gt NaN y = False"
| "float_gt x NaN = False"
| "float_gt PInf y = (y \<noteq> PInf)"
| "float_gt x NInf = (x \<noteq> NInf)"
| "float_gt x y = False"

text \<open>The number of bits of a natural number.\<close>

function bit_length :: "nat \<Rightarrow> nat" where
  "bit_length n = (if n = 0 then 0 else Suc (bit_length (n div 2)))"
  by pat_completeness auto
termination
  by (relation "measure id") auto

declare bit_length.simps [simp del]

text \<open>
  \<open>x * k\<close> for a float \<open>x\<close> and a positive integer \<open>k\<close> that is itself a double: the
  exact product, rounded to 53 significant bits, ties to even. The program multiplies by
  1000 only floats below 1000 that are not integers, whose magnitude is therefore below
  \<open>2 ^ 52\<close> and above \<open>10 ^ -9\<close>: the product neither overflows nor is subnormal.
\<close>

fun float_mul_int :: "pyfloat \<Rightarrow> nat \<Rightarrow> pyfloat" where
  "float_mul_int (Finite s m e) k =
     (let p = m * k; b = bit_length p in
      if b \<le> 53 then Finite s p e
      else Finite s (nat (round_half_even (int p) (2 ^ (b - 53)))) (e + int (b - 53)))"
| "float_mul_int x k = x"

text \<open>The double written \<open>1e-9\<close>.\<close>

definition float_1e_9 :: pyfloat where
  "float_1e_9 = Finite False 4835703278458517 (- 82)"

section \<open>Cell values and the helpers\<close>

text \<open>
  The value of a spreadsheet cell: \<open>None\<close>, a \<open>bool\<close>, an \<open>int\<close>, a \<open>float\<close>, a \<open>str\<close>,
  or any other object (a date, a time), of which the program only ever takes \<open>str()\<close>
  and which is represented by that string.

  \<open>str()\<close> of a float (its shortest decimal representation) is a parameter \<open>fs\<close> of the
  model.
\<close>

datatype cell = CNone | CBool bool | CInt int | CFloat pyfloat | CStr string | COther string

fun py_str :: "(pyfloat \<Rightarrow> string) \<Rightarrow> cell \<Rightarrow> string" where
  "py_str fs CNone = ''None''"
| "py_str fs (CBool b) = (if b then ''True'' else ''False'')"
| "py_str fs (CInt i) = str_int i"
| "py_str fs (CFloat x) = fs x"
| "py_str fs (CStr s) = s"
| "py_str fs (COther s) = s"

definition norm_str :: "(pyfloat \<Rightarrow> string) \<Rightarrow> cell \<Rightarrow> string" where
  "norm_str fs x = (if x = CNone then [] else strip (py_str fs x))"

definition norm_key :: "(pyfloat \<Rightarrow> string) \<Rightarrow> cell \<Rightarrow> string" where
  "norm_key fs x = upper (strip (norm_str fs x))"

fun parse_thousands_to_rp :: "(pyfloat \<Rightarrow> string) \<Rightarrow> cell \<Rightarrow> error + int option" where
  "parse_thousands_to_rp fs CNone = Inr None"
| "parse_thousands_to_rp fs (CBool b) = Inr None"
| "parse_thousands_to_rp fs (CInt i) = Inr (Some (i * 1000))"
| "parse_thousands_to_rp fs (CFloat x) =
     (if is_nan x then Inr None
      else if float_lt_int x 1000 then
        (case py_round x of
           Inl err \<Rightarrow> Inl err
         | Inr r \<Rightarrow>
             if float_gt (float_abs (float_sub_int x r)) float_1e_9 then
               (case py_round (float_mul_int x 1000) of
                  Inl err \<Rightarrow> Inl err
                | Inr thousands \<Rightarrow> Inr (Some (thousands * 1000)))
             else Inr (Some (r * 1000)))
      else
        (case py_round x of
           Inl err \<Rightarrow> Inl err
         | Inr thousands \<Rightarrow> Inr (Some (thousands * 1000))))"
| "parse_thousands_to_rp fs v =
     (let s = norm_str fs v in
      if s = [] then Inr None
      else let digits = digit_runs s in
        if digits = [] then Inr None
        else Inr (Some (int_of_digits (concat digits) * 1000)))"

fun parse_rp :: "(pyfloat \<Rightarrow> string) \<Rightarrow> cell \<Rightarrow> error + int option" where
  "parse_rp fs CNone = Inr None"
| "parse_rp fs (CBool b) = Inr None"
| "parse_rp fs (CInt i) = Inr (Some i)"
| "parse_rp fs (CFloat x) =
     (if is_nan x then Inr None
      else (case py_round x of Inl err \<Rightarrow> Inl err | Inr r \<Rightarrow> Inr (Some r)))"
| "parse_rp fs v =
     (let s = norm_str fs v in
      if s = [] then Inr None
      else let digits = digit_runs s in
        if digits = [] then Inr None
        else Inr (Some (int_of_digits (concat digits))))"


section \<open>SKU decomposition and price resolution\<close>

text \<open>
  A Python \<open>dict\<close> with string keys is an association list with distinct keys in
  insertion order: \<open>map_of d k\<close> looks a key up and \<open>AList.update k v d\<close> is \<open>d[k] = v\<close>.
\<close>

type_synonym 'v dict = "(string \<times> 'v) list"

definition split_sku_addons :: "string \<Rightarrow> string \<times> string list" where
  "split_sku_addons sku =
     (let parts = filter (\<lambda>p. strip p \<noteq> []) (split_on CHR ''+'' sku) in
      case parts of
        [] \<Rightarrow> ([], [])
      | p # ps \<Rightarrow> (strip p, map strip ps))"

text \<open>
  The loop over the addons of \<open>compute_final_price\<close>: the sum of the addon prices, or
  \<open>None\<close> as soon as one addon is not a key of the addon map.
\<close>

fun addon_loop :: "(pyfloat \<Rightarrow> string) \<Rightarrow> int dict \<Rightarrow> string list \<Rightarrow> int \<Rightarrow> int option" where
  "addon_loop fs addon_map [] addon_sum = Some addon_sum"
| "addon_loop fs addon_map (a # as) addon_sum =
     (let akey = norm_key fs (CStr a) in
      if akey = [] then addon_loop fs addon_map as addon_sum
      else (case map_of addon_map akey of
              None \<Rightarrow> None
            | Some p \<Rightarrow> addon_loop fs addon_map as (addon_sum + p)))"

definition compute_final_price ::
  "(pyfloat \<Rightarrow> string) \<Rightarrow> string \<Rightarrow> int dict \<Rightarrow> int dict \<Rightarrow> int \<Rightarrow> int option" where
  "compute_final_price fs sku pricelist_map addon_map diskon_rp =
     (case split_sku_addons sku of
        (base, addons) \<Rightarrow>
          let base_key = norm_key fs (CStr base) in
          if base_key = [] then None
          else (case map_of pricelist_map base_key of
                  None \<Rightarrow> None
                | Some base_price \<Rightarrow>
                    (case addon_loop fs addon_map addons 0 of
                       None \<Rightarrow> None
                     | Some addon_sum \<Rightarrow>
                         let final_price = base_price + addon_sum - diskon_rp in
                         Some (if final_price < 0 then 0 else final_price))))"

section \<open>Worksheets\<close>

text \<open>
  A worksheet is the grid of its cell values, a list of rows; rows and columns are
  counted from 1 and a cell outside the grid has the value \<open>None\<close>. The sheet's
  \<open>max_row\<close> and \<open>max_column\<close> are at least 1, also on an empty sheet. Cell styles are
  not part of the model.
\<close>

type_synonym worksheet = "cell list list"

definition max_row :: "worksheet \<Rightarrow> nat" where
  "max_row ws = max 1 (length ws)"

definition max_column :: "worksheet \<Rightarrow> nat" where
  "max_column ws = max 1 (foldr (\<lambda>r m. max (length r) m) ws 0)"

definition cell_value :: "worksheet \<Rightarrow> nat \<Rightarrow> nat \<Rightarrow> cell" where
  "cell_value ws r c =
     (if 1 \<le> r \<and> r \<le> length ws \<and> 1 \<le> c \<and> c \<le> length (ws ! (r - 1))
      then ws ! (r - 1) ! (c - 1) else CNone)"

text \<open>Writing a cell extends the grid as far as needed, with empty rows and \<open>None\<close> cells.\<close>

definition pad :: "nat \<Rightarrow> 'a \<Rightarrow> 'a list \<Rightarrow> 'a list" where
  "pad n x xs = xs @ replicate (n - length xs) x"

definition set_cell :: "worksheet \<Rightarrow> nat \<Rightarrow> nat \<Rightarrow> cell \<Rightarrow> worksheet" where
  "set_cell ws r c v =
     (let ws' = pad r [] ws; cells = pad c CNone (ws' ! (r - 1))
      in ws'[r - 1 := cells[c - 1 := v]])"

definition delete_rows :: "worksheet \<Rightarrow> nat \<Rightarrow> nat \<Rightarrow> worksheet" where
  "delete_rows ws idx amount = take (idx - 1) ws @ drop (idx - 1 + amount) ws"

definition insert_rows :: "worksheet \<Rightarrow> nat \<Rightarrow> nat \<Rightarrow> worksheet" where
  "insert_rows ws idx amount =
     (if idx \<le> length ws then take (idx - 1) ws @ replicate amount [] @ drop (idx - 1) ws
      else ws)"

section \<open>Header location\<close>

definition row_text :: "(pyfloat \<Rightarrow> string) \<Rightarrow> worksheet \<Rightarrow> nat \<Rightarrow> string" where
  "row_text fs ws r =
     py_join '' | '' (map (\<lambda>c. upper (norm_str fs (cell_value ws r c))) [1 ..< max_column ws + 1])"

definition row_ok :: "(pyfloat \<Rightarrow> string) \<Rightarrow> worksheet \<Rightarrow> string list list \<Rightarrow> nat \<Rightarrow> bool" where
  "row_ok fs ws must_have_any r =
     list_all (\<lambda>group. list_ex (\<lambda>k. str_contains (row_text fs ws r) (upper k)) group) must_have_any"

definition find_header_row ::
  "(pyfloat \<Rightarrow> string) \<Rightarrow> worksheet \<Rightarrow> string list list \<Rightarrow> int \<Rightarrow> nat option" where
  "find_header_row fs ws must_have_any scan_rows =
     find (row_ok fs ws must_have_any) [1 ..< nat (min scan_rows (int (max_row ws)) + 1)]"

definition map_headers :: "(pyfloat \<Rightarrow> string) \<Rightarrow> worksheet \<Rightarrow> nat \<Rightarrow> nat dict" where
  "map_headers fs ws header_row =
     foldl (\<lambda>headers c.
              let key = norm_key fs (cell_value ws header_row c) in
              if key \<noteq> [] then AList.update key c headers else headers)
       [] [1 ..< max_column ws + 1]"


section \<open>Loading the pricelist and the addon table\<close>

text \<open>
  The bytes of a workbook file are represented by what \<open>openpyxl.load_workbook\<close>
  followed by \<open>get_first_sheet\<close> makes of them: the exception raised, or the first sheet.
\<close>

type_synonym xlsx = "error + worksheet"

definition load_workbook :: "xlsx \<Rightarrow> error + worksheet" where
  "load_workbook bytes = bytes"

text \<open>\<open>a or b\<close> on two results of \<open>dict.get\<close>: the first one that is neither \<open>None\<close> nor 0.\<close>

definition falsy :: "nat option \<Rightarrow> bool" where
  "falsy x = (x = None \<or> x = Some 0)"

definition py_or :: "nat option \<Rightarrow> nat option \<Rightarrow> nat option" where
  "py_or a b = (if falsy a then b else a)"

text \<open>
  The loop over the data rows of the pricelist: rows without a code, with a blank code
  or with the code \<open>TOTAL\<close>, and rows without a price, are skipped.
\<close>

fun pl_rows ::
  "(pyfloat \<Rightarrow> string) \<Rightarrow> worksheet \<Rightarrow> nat \<Rightarrow> nat \<Rightarrow> nat list \<Rightarrow> int dict \<Rightarrow> error + int dict" where
  "pl_rows fs ws sku_col m4_col [] pl_map = Inr pl_map"
| "pl_rows fs ws sku_col m4_col (r # rs) pl_map =
     (let sku = cell_value ws r sku_col in
      if sku = CNone then pl_rows fs ws sku_col m4_col rs pl_map
      else let sku_key = norm_key fs sku in
        if sku_key = [] \<or> sku_key = ''TOTAL'' then pl_rows fs ws sku_col m4_col rs pl_map
        else (case parse_thousands_to_rp fs (cell_value ws r m4_col) of
                Inl err \<Rightarrow> Inl err
              | Inr None \<Rightarrow> pl_rows fs ws sku_col m4_col rs pl_map
              | Inr (Some price_rp) \<Rightarrow>
                  pl_rows fs ws sku_col m4_col rs (AList.update sku_key price_rp pl_map)))"

text \<open>The code column and the price column of the pricelist, from the header map.\<close>

definition pricelist_columns :: "nat dict \<Rightarrow> nat option \<times> nat option" where
  "pricelist_columns hdr =
     (py_or (map_of hdr ''KODEBARANG'') (map_of hdr ''KODE BARANG''), map_of hdr ''M4'')"

definition load_pricelist_map :: "(pyfloat \<Rightarrow> string) \<Rightarrow> xlsx \<Rightarrow> error + (int dict \<times> nat)" where
  "load_pricelist_map fs pl_bytes =
     (case load_workbook pl_bytes of
        Inl err \<Rightarrow> Inl err
      | Inr ws \<Rightarrow>
          (case find_header_row fs ws [[''KODEBARANG'', ''KODE BARANG''], [''M4'']] 80 of
             None \<Rightarrow>
               Inl (ValueError ''Header Pricelist tidak ketemu. Pastikan ada kolom KODEBARANG & M4.'')
           | Some header_row \<Rightarrow>
               let hdr = map_headers fs ws header_row;
                   (sku_col, m4_col) = pricelist_columns hdr
               in if falsy sku_col \<or> falsy m4_col then
                    Inl (ValueError
                      ''Kolom SKU/Price di Pricelist tidak ketemu (butuh KODEBARANG/KODE BARANG & M4).'')
                  else
                    (case pl_rows fs ws (the sku_col) (the m4_col)
                            [header_row + 1 ..< max_row ws + 1] [] of
                       Inl err \<Rightarrow> Inl err
                     | Inr pl_map \<Rightarrow>
                         if pl_map = [] then
                           Inl (ValueError
                             ''Pricelist kebaca, tapi mapping KODEBARANG -> M4 kosong. Cek isi file Pricelist.'')
                         else Inr (pl_map, header_row))))"

text \<open>The loop over the data rows of the addon table.\<close>

fun addon_rows ::
  "(pyfloat \<Rightarrow> string) \<Rightarrow> worksheet \<Rightarrow> nat \<Rightarrow> nat \<Rightarrow> nat list \<Rightarrow> int dict \<Rightarrow> error + int dict" where
  "addon_rows fs ws code_col price_col [] addon_map = Inr addon_map"
| "addon_rows fs ws code_col price_col (r # rs) addon_map =
     (let code = cell_value ws r code_col in
      if code = CNone then addon_rows fs ws code_col price_col rs addon_map
      else let code_key = norm_key fs code in
        if code_key = [] then addon_rows fs ws code_col price_col rs addon_map
        else (case parse_thousands_to_rp fs (cell_value ws r price_col) of
                Inl err \<Rightarrow> Inl err
              | Inr None \<Rightarrow> addon_rows fs ws code_col price_col rs addon_map
              | Inr (Some price_rp) \<Rightarrow>
                  addon_rows fs ws code_col price_col rs (AList.update code_key price_rp addon_map)))"

text \<open>The first of the candidate header names that is a key of the header map.\<close>

definition first_header :: "nat dict \<Rightarrow> string list \<Rightarrow> nat option" where
  "first_header hdr names =
     (case find (\<lambda>k. map_of hdr k \<noteq> None) names of None \<Rightarrow> None | Some k \<Rightarrow> map_of hdr k)"

definition code_col_candidates :: "string list" where
  "code_col_candidates =
     [''ADDON_CODE'', ''KODE'', ''KODE ADDON'', ''STANDARISASI KODE SKU DI VARIAN'',
      ''STANDARISASI KODE SKU DI VARIASI'', ''KODE VARIAN'', ''KODE VARIASI'']"

text \<open>The fallback: the first header, in the order of the header map, that contains a keyword.\<close>

definition fallback_code_col :: "nat dict \<Rightarrow> nat option" where
  "fallback_code_col hdr =
     (case find (\<lambda>(hk, col). list_ex (\<lambda>x. str_contains hk x)
                   [''KODE'', ''VARIAN'', ''VARIASI'', ''STANDARISASI'', ''ADDON'']) hdr of
        None \<Rightarrow> None
      | Some (hk, col) \<Rightarrow> Some col)"

text \<open>
  The code column and the price column of the addon table: the price column is the
  first of \<open>HARGA\<close>, \<open>PRICE\<close> in the header map, the code column the first candidate
  name in the header map and otherwise the fallback.
\<close>

definition addon_columns :: "nat dict \<Rightarrow> nat option \<times> nat option" where
  "addon_columns hdr =
     (let price_col = first_header hdr [''HARGA'', ''PRICE''];
          code_col = first_header hdr code_col_candidates
      in (if falsy code_col then fallback_code_col hdr else code_col, price_col))"

definition load_addon_map :: "(pyfloat \<Rightarrow> string) \<Rightarrow> xlsx \<Rightarrow> error + int dict" where
  "load_addon_map fs addon_bytes =
     (case load_workbook addon_bytes of
        Inl err \<Rightarrow> Inl err
      | Inr ws \<Rightarrow>
          (case find_header_row fs ws
                  [[''HARGA'', ''PRICE''], [''KODE'', ''VARIAN'', ''STANDARISASI'', ''ADDON'']] 80 of
             None \<Rightarrow>
               Inl (ValueError
                 ''Header Addon Mapping tidak ketemu. Pastikan ada kolom kode addon & harga.'')
           | Some header_row \<Rightarrow>
               let hdr = map_headers fs ws header_row;
                   (code_col, price_col) = addon_columns hdr
               in if falsy code_col \<or> falsy price_col then
                    Inl (ValueError ''Kolom addon_code / harga tidak ketemu di Addon Mapping.'')
                  else addon_rows fs ws (the code_col) (the price_col)
                         [header_row + 1 ..< max_row ws + 1] []))"


section \<open>The batch reconciler\<close>

record issue =
  i_file :: string
  i_row :: string
  i_sku_full :: string
  i_base_sku :: string
  i_reason :: string

text \<open>\<open>str(e)\<close> of an exception.\<close>

fun describe :: "error \<Rightarrow> string" where
  "describe (ValueError msg) = msg"
| "describe IndexError = ''list index out of range''"
| "describe OverflowError = ''cannot convert float infinity to integer''"
| "describe (LoadError msg) = msg"

definition file_issue :: "string \<Rightarrow> error \<Rightarrow> issue" where
  "file_issue fname e =
     \<lparr>i_file = fname, i_row = [], i_sku_full = [], i_base_sku = [],
      i_reason = ''Gagal proses file: '' @ describe e\<rparr>"

definition empty_result_notice :: issue where
  "empty_result_notice =
     \<lparr>i_file = [], i_row = [], i_sku_full = [], i_base_sku = [],
      i_reason = ''Tidak ada baris yang berubah (semua cocok / tidak ada yang bisa diupdate).''\<rparr>"

definition DATA_START_ROW :: nat where
  "DATA_START_ROW = 7"

definition SKU_COL :: nat where
  "SKU_COL = 6"

definition PRICE_COL :: nat where
  "PRICE_COL = 7"

text \<open>The state the loops over files and rows update: the output sheet and two counters.\<close>

record run_state =
  out_ws :: worksheet
  write_row :: nat
  total_updated :: nat

text \<open>
  Writing one output row: a row is inserted at the write cursor, the values of the
  columns \<open>1 .. max_col\<close> of the source row are copied, and the price cell is overwritten.
\<close>

definition copy_row_values :: "worksheet \<Rightarrow> nat \<Rightarrow> worksheet \<Rightarrow> nat \<Rightarrow> nat \<Rightarrow> worksheet" where
  "copy_row_values out wr ws r max_col =
     foldl (\<lambda>out c. set_cell out wr c (cell_value ws r c)) out [1 ..< max_col + 1]"

definition write_output_row :: "run_state \<Rightarrow> worksheet \<Rightarrow> nat \<Rightarrow> nat \<Rightarrow> int \<Rightarrow> run_state" where
  "write_output_row st ws r max_col new_price =
     (let out1 = insert_rows (out_ws st) (write_row st) 1;
          out2 = copy_row_values out1 (write_row st) ws r max_col;
          out3 = set_cell out2 (write_row st) PRICE_COL (CInt new_price)
      in \<lparr>out_ws = out3, write_row = write_row st + 1, total_updated = total_updated st + 1\<rparr>)"

text \<open>The body of the loop over the rows of one mass-update file.\<close>

definition row_step ::
  "(pyfloat \<Rightarrow> string) \<Rightarrow> int dict \<Rightarrow> int dict \<Rightarrow> int \<Rightarrow> nat \<Rightarrow> worksheet \<Rightarrow> nat \<Rightarrow> run_state
     \<Rightarrow> error + run_state" where
  "row_step fs pricelist_map addon_map diskon_rp max_col ws r st =
     (let sku_full_s = norm_str fs (cell_value ws r SKU_COL) in
      if sku_full_s = [] then Inr st
      else (case parse_rp fs (cell_value ws r PRICE_COL) of
              Inl err \<Rightarrow> Inl err
            | Inr old_price_rp \<Rightarrow>
                (case compute_final_price fs sku_full_s pricelist_map addon_map diskon_rp of
                   None \<Rightarrow> Inr st
                 | Some new_price \<Rightarrow>
                     if old_price_rp \<noteq> None \<and> the old_price_rp = new_price then Inr st
                     else Inr (write_output_row st ws r max_col new_price))))"

text \<open>
  The loop over the rows: it stops at the first exception, and the state reached so far
  stays as it is.
\<close>

fun process_rows ::
  "(pyfloat \<Rightarrow> string) \<Rightarrow> int dict \<Rightarrow> int dict \<Rightarrow> int \<Rightarrow> nat \<Rightarrow> worksheet \<Rightarrow> nat list \<Rightarrow> run_state
     \<Rightarrow> run_state \<times> error option" where
  "process_rows fs pricelist_map addon_map diskon_rp max_col ws [] st = (st, None)"
| "process_rows fs pricelist_map addon_map diskon_rp max_col ws (r # rs) st =
     (case row_step fs pricelist_map addon_map diskon_rp max_col ws r st of
        Inl err \<Rightarrow> (st, Some err)
      | Inr st' \<Rightarrow> process_rows fs pricelist_map addon_map diskon_rp max_col ws rs st')"

text \<open>One mass-update file, inside its \<open>try\<close>: an exception becomes one issue record.\<close>

definition process_file ::
  "(pyfloat \<Rightarrow> string) \<Rightarrow> int dict \<Rightarrow> int dict \<Rightarrow> int \<Rightarrow> nat \<Rightarrow> run_state \<times> issue list
     \<Rightarrow> string \<times> xlsx \<Rightarrow> run_state \<times> issue list" where
  "process_file fs pricelist_map addon_map diskon_rp max_col acc f =
     (case (acc, f) of
        ((st, issues), (fname, fbytes)) \<Rightarrow>
          (case load_workbook fbytes of
             Inl err \<Rightarrow> (st, issues @ [file_issue fname err])
           | Inr ws \<Rightarrow>
               (case process_rows fs pricelist_map addon_map diskon_rp max_col ws
                       [DATA_START_ROW ..< max_row ws + 1] st of
                  (st', None) \<Rightarrow> (st', issues)
                | (st', Some err) \<Rightarrow> (st', issues @ [file_issue fname err]))))"

text \<open>
  The entry point. \<open>addon_bytes\<close> is \<open>None\<close> when no addon file is given (or its bytes
  are empty). The result is the output sheet and the issue records.
\<close>

definition process_shopee_files ::
  "(pyfloat \<Rightarrow> string) \<Rightarrow> (string \<times> xlsx) list \<Rightarrow> xlsx \<Rightarrow> xlsx option \<Rightarrow> int
     \<Rightarrow> error + (worksheet \<times> issue list)" where
  "process_shopee_files fs mass_files pl_bytes addon_bytes diskon_rp =
     (case load_pricelist_map fs pl_bytes of
        Inl err \<Rightarrow> Inl err
      | Inr (pricelist_map, _) \<Rightarrow>
          (case (case addon_bytes of None \<Rightarrow> Inr [] | Some b \<Rightarrow> load_addon_map fs b) of
             Inl err \<Rightarrow> Inl err
           | Inr addon_map \<Rightarrow>
               (case mass_files of
                  [] \<Rightarrow> Inl IndexError
                | (first_name, first_bytes) # _ \<Rightarrow>
                    (case load_workbook first_bytes of
                       Inl err \<Rightarrow> Inl err
                     | Inr first_ws \<Rightarrow>
                         let out0 =
                               (if DATA_START_ROW \<le> max_row first_ws
                                then delete_rows first_ws DATA_START_ROW
                                       (max_row first_ws - DATA_START_ROW + 1)
                                else first_ws);
                             max_col = max_column first_ws;
                             st0 = \<lparr>out_ws = out0, write_row = DATA_START_ROW, total_updated = 0\<rparr>;
                             res = foldl (process_file fs pricelist_map addon_map diskon_rp max_col)
                                     (st0, []) mass_files;
                             issues =
                               (if total_updated (fst res) = 0 then snd res @ [empty_result_notice]
                                else snd res)
                         in Inr (out_ws (fst res), issues)))))"


section \<open>Specifications\<close>

text \<open>The integer nearest to a rational number, the even one of the two at a tie.\<close>

definition nearest_even :: "rat \<Rightarrow> int" where
  "nearest_even q =
     (let f = \<lfloor>q\<rfloor>; d = q - of_int f in
      if d < 1 / 2 then f else if 1 / 2 < d then f + 1 else if even f then f else f + 1)"

text \<open>
  The scaled parser on a float, as the specification words it: the fractional digits
  are reinterpreted when the magnitude of the float is below 1000 and its fractional
  part is not trivial.
\<close>

definition spec_scaled_float :: "pyfloat \<Rightarrow> error + int option" where
  "spec_scaled_float x =
     (if is_nan x then Inr None
      else if \<bar>fval x\<bar> < 1000 \<and> fval float_1e_9 < \<bar>fval x - of_int (nearest_even (fval x))\<bar>
        then Inr (Some (nearest_even (fval (float_mul_int x 1000)) * 1000))
        else Inr (Some (nearest_even (fval x) * 1000)))"

text \<open>A cell that holds a negative number.\<close>

fun negative_number :: "cell \<Rightarrow> bool" where
  "negative_number (CInt i) = (i < 0)"
| "negative_number (CFloat x) = (x = NInf \<or> fval x < 0)"
| "negative_number _ = False"

text \<open>
  The rows the header locator looks for: every keyword group has a member that occurs,
  whatever the case of the letters, in the text of the cells of the row joined by
  \<open>" | "\<close>.
\<close>

definition row_matches :: "(pyfloat \<Rightarrow> string) \<Rightarrow> worksheet \<Rightarrow> string list list \<Rightarrow> nat \<Rightarrow> bool" where
  "row_matches fs ws groups r =
     (\<forall>g \<in> set groups. \<exists>k \<in> set g.
        sublist (upper k)
          (upper (py_join '' | '' (map (\<lambda>c. norm_str fs (cell_value ws r c)) [1 ..< max_column ws + 1]))))"

text \<open>
  The normalized code and the price of a data row of the pricelist or the addon table,
  for a row that has a code and a price that the scaled parser can read.
\<close>

definition keyed_row ::
  "(pyfloat \<Rightarrow> string) \<Rightarrow> worksheet \<Rightarrow> nat \<Rightarrow> nat \<Rightarrow> nat \<Rightarrow> (string \<times> int) option" where
  "keyed_row fs ws code_col price_col r =
     (let code = cell_value ws r code_col in
      if code = CNone \<or> norm_key fs code = [] then None
      else (case parse_thousands_to_rp fs (cell_value ws r price_col) of
              Inr (Some price) \<Rightarrow> Some (norm_key fs code, price)
            | _ \<Rightarrow> None))"

text \<open>
  What the reconciler decides for one data row of a mass-update file: the price to
  write, \<open>None\<close> when the row is skipped, or the exception raised on the row.
\<close>

definition row_decision ::
  "(pyfloat \<Rightarrow> string) \<Rightarrow> int dict \<Rightarrow> int dict \<Rightarrow> int \<Rightarrow> worksheet \<Rightarrow> nat \<Rightarrow> error + int option" where
  "row_decision fs pricelist_map addon_map diskon_rp ws r =
     (let sku = norm_str fs (cell_value ws r SKU_COL) in
      if sku = [] then Inr None
      else (case parse_rp fs (cell_value ws r PRICE_COL) of
              Inl err \<Rightarrow> Inl err
            | Inr old_price \<Rightarrow>
                (case compute_final_price fs sku pricelist_map addon_map diskon_rp of
                   None \<Rightarrow> Inr None
                 | Some new_price \<Rightarrow> if old_price = Some new_price then Inr None else Inr (Some new_price))))"

text \<open>
  The output row for a source row: the values of the columns \<open>1 .. max_col\<close> of the
  source row, with the price in the price column.
\<close>

definition output_row :: "worksheet \<Rightarrow> nat \<Rightarrow> nat \<Rightarrow> int \<Rightarrow> cell list" where
  "output_row ws r max_col new_price =
     (pad PRICE_COL CNone (map (cell_value ws r) [1 ..< max_col + 1]))[PRICE_COL - 1 := CInt new_price]"

text \<open>The output rows of the rows of a sheet, up to the first exception, and that exception.\<close>

fun selected_rows ::
  "(pyfloat \<Rightarrow> string) \<Rightarrow> int dict \<Rightarrow> int dict \<Rightarrow> int \<Rightarrow> nat \<Rightarrow> worksheet \<Rightarrow> nat list
     \<Rightarrow> cell list list \<times> error option" where
  "selected_rows fs pricelist_map addon_map diskon_rp max_col ws [] = ([], None)"
| "selected_rows fs pricelist_map addon_map diskon_rp max_col ws (r # rs) =
     (case row_decision fs pricelist_map addon_map diskon_rp ws r of
        Inl err \<Rightarrow> ([], Some err)
      | Inr None \<Rightarrow> selected_rows fs pricelist_map addon_map diskon_rp max_col ws rs
      | Inr (Some new_price) \<Rightarrow>
          (output_row ws r max_col new_price
             # fst (selected_rows fs pricelist_map addon_map diskon_rp max_col ws rs),
           snd (selected_rows fs pricelist_map addon_map diskon_rp max_col ws rs)))"

text \<open>
  What one mass-update file contributes to the result, whatever the other files are:
  its output rows, and one issue record when its processing raised an exception.
\<close>

definition file_result ::
  "(pyfloat \<Rightarrow> string) \<Rightarrow> int dict \<Rightarrow> int dict \<Rightarrow> int \<Rightarrow> nat \<Rightarrow> string \<times> xlsx
     \<Rightarrow> cell list list \<times> issue list" where
  "file_result fs pricelist_map addon_map diskon_rp max_col f =
     (case load_workbook (snd f) of
        Inl err \<Rightarrow> ([], [file_issue (fst f) err])
      | Inr ws \<Rightarrow>
          (case selected_rows fs pricelist_map addon_map diskon_rp max_col ws
                  [DATA_START_ROW ..< max_row ws + 1] of
             (rows, None) \<Rightarrow> (rows, [])
           | (rows, Some err) \<Rightarrow> (rows, [file_issue (fst f) err])))"

text \<open>The state of the run once the output rows \<open>rows\<close> have been written below the template.\<close>

definition state_after :: "worksheet \<Rightarrow> cell list list \<Rightarrow> run_state" where
  "state_after first_ws rows =
     \<lparr>out_ws = (if rows = [] then take 6 first_ws else pad 6 [] (take 6 first_ws) @ rows),
      write_row = DATA_START_ROW + length rows,
      total_updated = length rows\<rparr>"

text \<open>
  A configuration error: the failure that the program raises itself, with a message
  written for the user.
\<close>

fun is_configuration_error :: "error \<Rightarrow> bool" where
  "is_configuration_error (ValueError msg) = True"
| "is_configuration_error _ = False"

section \<open>Example inputs\<close>

text \<open>\<open>str()\<close> on the floats that occur in the examples.\<close>

definition fs_ex :: "pyfloat \<Rightarrow> string" where
  "fs_ex x =
     (if x = Finite True 10001 (- 1) then ''-5000.5''
      else if x = Finite False 6670675473065837 (- 48) then ''23.699''
      else ''nan'')"

definition pricelist_ex :: worksheet where
  "pricelist_ex =
     [[CStr ''Daftar Harga''],
      [CStr ''No'', CStr ''KodeBarang'', CStr '' m4 ''],
      [CInt 1, CStr ''base1'', CInt 9000],
      [CInt 2, CStr ''BASE1 '', CInt 9300],
      [CNone, CStr ''Total'', CInt 18300]]"

definition addon_ex :: worksheet where
  "addon_ex =
     [[CStr ''Kode Addon'', CStr ''Harga''],
      [CStr ''pc'', CStr ''400''],
      [CStr ''PC'', CInt 500]]"

definition mass_ex_a :: worksheet where
  "mass_ex_a =
     [[CStr ''Mass Update''], [], [CStr ''Product'', CStr ''SKU'', CStr ''Price''], [], [], [],
      [CInt 1, CNone, CNone, CNone, CNone, CStr ''BASE1'', CInt 9000000],
      [CInt 2, CNone, CNone, CNone, CNone, CStr ''base1+pc'', CInt 9800000],
      [CInt 3, CNone, CNone, CNone, CNone, CStr ''BASE1+XX'', CInt 1]]"

definition mass_ex_b :: worksheet where
  "mass_ex_b =
     [[CStr ''Mass Update''], [], [CStr ''Product'', CStr ''SKU'', CStr ''Price''], [], [], [],
      [CInt 7, CNone, CNone, CNone, CNone, CStr ''Base1 + PC'', CNone, CStr ''note'']]"

section \<open>Properties of the string helpers and the parsers\<close>

lemma is_digit_not_space: "is_digit c \<Longrightarrow> \<not> is_space c"
  by (auto simp: is_digit_def is_space_def Let_def)

lemma filter_dropWhile_disjoint:
  "(\<And>x. Q x \<Longrightarrow> \<not> P x) \<Longrightarrow> filter P (dropWhile Q xs) = filter P xs"
  by (induction xs) auto

lemma filter_digit_strip: "filter is_digit (strip s) = filter is_digit s"
proof -
  have "filter is_digit (strip s) = rev (filter is_digit (dropWhile is_space (rev (dropWhile is_space s))))"
    by (simp add: strip_def rev_filter)
  also have "\<dots> = rev (filter is_digit (rev (dropWhile is_space s)))"
    using is_digit_not_space by (subst filter_dropWhile_disjoint) auto
  also have "\<dots> = filter is_digit (dropWhile is_space s)"
    by (simp add: rev_filter)
  also have "\<dots> = filter is_digit s"
    using is_digit_not_space by (subst filter_dropWhile_disjoint) auto
  finally show ?thesis .
qed

lemma concat_digit_runs: "concat (digit_runs s) = filter is_digit s"
proof (induction s rule: digit_runs.induct)
  case 1
  show ?case by simp
next
  case (2 c cs)
  show ?case
  proof (cases "is_digit c")
    case True
    have "filter is_digit (takeWhile is_digit cs) = takeWhile is_digit cs"
      by (simp add: filter_id_conv) (auto dest: set_takeWhileD)
    then have "filter is_digit cs = takeWhile is_digit cs @ filter is_digit (dropWhile is_digit cs)"
      by (metis filter_append takeWhile_dropWhile_id)
    with True 2 show ?thesis by simp
  next
    case False
    with 2 show ?thesis by simp
  qed
qed

lemma digit_runs_Nil_iff: "digit_runs s = [] \<longleftrightarrow> filter is_digit s = []"
proof (induction s rule: digit_runs.induct)
  case 1
  show ?case by simp
next
  case (2 c cs)
  then show ?case by (cases "is_digit c") auto
qed

lemma strip_Nil_no_digits: "strip s = [] \<Longrightarrow> filter is_digit s = []"
  using filter_digit_strip [of s] by simp

lemma int_of_digits_nonneg_aux:
  "0 \<le> a \<Longrightarrow> \<forall>c\<in>set s. is_digit c \<Longrightarrow> 0 \<le> foldl (\<lambda>a c. 10 * a + digit_val c) a s"
proof (induction s arbitrary: a)
  case Nil
  then show ?case by simp
next
  case (Cons c s)
  have "0 \<le> digit_val c" using Cons.prems(2) by (simp add: is_digit_def digit_val_def Let_def)
  with Cons show ?case by simp
qed

lemma int_of_digits_nonneg: "0 \<le> int_of_digits (filter is_digit s)"
  unfolding int_of_digits_def by (rule int_of_digits_nonneg_aux) auto

lemma parse_rp_text:
  "parse_rp fs (CStr s) =
     (if filter is_digit s = [] then Inr None else Inr (Some (int_of_digits (filter is_digit s))))"
  by (auto simp: norm_str_def Let_def digit_runs_Nil_iff concat_digit_runs filter_digit_strip
      dest: strip_Nil_no_digits)

lemma parse_thousands_text:
  "parse_thousands_to_rp fs (CStr s) =
     (if filter is_digit s = [] then Inr None else Inr (Some (int_of_digits (filter is_digit s) * 1000)))"
  by (auto simp: norm_str_def Let_def digit_runs_Nil_iff concat_digit_runs filter_digit_strip
      dest: strip_Nil_no_digits)


lemma dropWhile_unchanged: "xs = [] \<or> \<not> P (hd xs) \<Longrightarrow> dropWhile P xs = xs"
  by (cases xs) auto

lemma last_dropWhile: "dropWhile P xs \<noteq> [] \<Longrightarrow> last (dropWhile P xs) = last xs"
  by (induction xs) auto

lemma strip_ends: "strip s = [] \<or> (\<not> is_space (hd (strip s)) \<and> \<not> is_space (last (strip s)))"
proof (cases "strip s = []")
  case True
  then show ?thesis by simp
next
  case False
  define t where "t = dropWhile is_space s"
  define u where "u = dropWhile is_space (rev t)"
  have su: "strip s = rev u" by (simp add: strip_def t_def u_def)
  with False have u: "u \<noteq> []" by simp
  then have t: "t \<noteq> []" by (auto simp: u_def)
  have "\<not> is_space (hd u)" using u unfolding u_def by (rule hd_dropWhile)
  then have l: "\<not> is_space (last (strip s))" using u by (simp add: su last_rev)
  have "last u = last (rev t)" using u unfolding u_def by (rule last_dropWhile)
  then have "hd (strip s) = hd t" using u t by (simp add: su hd_rev last_rev)
  moreover have "\<not> is_space (hd t)" using t unfolding t_def by (rule hd_dropWhile)
  ultimately show ?thesis using l by simp
qed

lemma strip_fixed:
  assumes "t = [] \<or> (\<not> is_space (hd t) \<and> \<not> is_space (last t))"
  shows "strip t = t"
proof (cases "t = []")
  case True
  then show ?thesis by (simp add: strip_def)
next
  case False
  with assms have h: "\<not> is_space (hd t)" and l: "\<not> is_space (last t)" by auto
  have 1: "dropWhile is_space t = t" using h by (simp add: dropWhile_unchanged)
  have "hd (rev t) = last t" using False by (simp add: hd_rev)
  then have 2: "dropWhile is_space (rev t) = rev t" using l by (simp add: dropWhile_unchanged)
  show ?thesis by (simp add: strip_def 1 2)
qed

lemma strip_strip: "strip (strip s) = strip s"
  using strip_ends [of s] by (rule strip_fixed)

lemma upper_Nil_iff: "upper s = [] \<longleftrightarrow> s = []"
  by (simp add: upper_def)

lemma norm_key_text: "norm_key fs (CStr a) = upper (strip a)"
  by (simp add: norm_key_def norm_str_def strip_strip)

lemma split_sku_addons_keys:
  assumes "split_sku_addons sku = (base, addons)" and "a \<in> set addons"
  shows "norm_key fs (CStr a) \<noteq> []"
proof -
  from assms obtain q qs where
    parts: "filter (\<lambda>p. strip p \<noteq> []) (split_on CHR ''+'' sku) = q # qs"
    and addons: "addons = map strip qs"
    by (auto simp: split_sku_addons_def Let_def split: list.splits)
  from assms(2) addons obtain p where p: "p \<in> set qs" and a: "a = strip p" by auto
  from p have "p \<in> set (filter (\<lambda>p. strip p \<noteq> []) (split_on CHR ''+'' sku))"
    by (simp only: parts) simp
  then have "strip p \<noteq> []" by simp
  with a show ?thesis by (simp add: norm_key_text strip_strip upper_Nil_iff)
qed

lemma addon_loop_None:
  "a \<in> set as \<Longrightarrow> norm_key fs (CStr a) \<noteq> [] \<Longrightarrow> map_of addon_map (norm_key fs (CStr a)) = None
     \<Longrightarrow> addon_loop fs addon_map as acc = None"
  by (induction as arbitrary: acc) (auto simp: Let_def split: option.splits)

lemma addon_loop_Some:
  "addon_loop fs addon_map as acc = Some tot \<Longrightarrow> \<forall>a\<in>set as. norm_key fs (CStr a) \<noteq> []
     \<Longrightarrow> \<exists>aps. map (\<lambda>a. map_of addon_map (norm_key fs (CStr a))) as = map Some aps
           \<and> tot = acc + sum_list aps"
proof (induction as arbitrary: acc)
  case Nil
  then show ?case by simp
next
  case (Cons a as)
  from Cons.prems obtain p where p: "map_of addon_map (norm_key fs (CStr a)) = Some p"
    and rest: "addon_loop fs addon_map as (acc + p) = Some tot"
    by (auto simp: Let_def split: option.splits)
  from Cons.IH [OF rest] Cons.prems(2) obtain aps where
    "map (\<lambda>a. map_of addon_map (norm_key fs (CStr a))) as = map Some aps" "tot = acc + p + sum_list aps"
    by auto
  then have "map (\<lambda>a. map_of addon_map (norm_key fs (CStr a))) (a # as) = map Some (p # aps)
      \<and> tot = acc + sum_list (p # aps)"
    using p by simp
  then show ?case by blast
qed

text \<open>
  C1. The price resolver is strict: when an addon segment of the SKU whose normalized
  code is not empty is not a key of the addon map, \<open>compute_final_price\<close> returns \<open>None\<close>,
  whatever the base code and the other addons resolve to.
\<close>

theorem compute_final_price_strict:
  assumes "split_sku_addons sku = (base, addons)"
    and "a \<in> set addons"
    and "norm_key fs (CStr a) \<noteq> []"
    and "map_of addon_map (norm_key fs (CStr a)) = None"
  shows "compute_final_price fs sku pricelist_map addon_map diskon_rp = None"
proof -
  have "addon_loop fs addon_map addons 0 = None"
    using assms(2-4) by (rule addon_loop_None)
  then show ?thesis
    by (simp add: compute_final_price_def assms(1) Let_def split: option.splits)
qed

text \<open>
  C2. A price returned by \<open>compute_final_price\<close> is the base price plus the sum of the
  prices of all addons minus the discount, clamped to zero from below: it is never
  negative, and it is 0 when the discount exceeds base plus addons.
\<close>

theorem compute_final_price_value:
  assumes "compute_final_price fs sku pricelist_map addon_map diskon_rp = Some price"
    and "split_sku_addons sku = (base, addons)"
  shows "\<exists>base_price addon_prices.
           map_of pricelist_map (norm_key fs (CStr base)) = Some base_price
         \<and> map (\<lambda>a. map_of addon_map (norm_key fs (CStr a))) addons = map Some addon_prices
         \<and> price = max 0 (base_price + sum_list addon_prices - diskon_rp)
         \<and> 0 \<le> price
         \<and> (base_price + sum_list addon_prices < diskon_rp \<longrightarrow> price = 0)"
proof -
  from assms obtain base_price addon_sum where
    bp: "map_of pricelist_map (norm_key fs (CStr base)) = Some base_price"
    and al: "addon_loop fs addon_map addons 0 = Some addon_sum"
    and pr: "price = (if base_price + addon_sum - diskon_rp < 0 then 0
                      else base_price + addon_sum - diskon_rp)"
    by (auto simp: compute_final_price_def Let_def split: if_splits option.splits)
  have "\<forall>a\<in>set addons. norm_key fs (CStr a) \<noteq> []"
    using split_sku_addons_keys [OF assms(2)] by blast
  from addon_loop_Some [OF al this] obtain addon_prices where
    ap: "map (\<lambda>a. map_of addon_map (norm_key fs (CStr a))) addons = map Some addon_prices"
    and "addon_sum = sum_list addon_prices" by auto
  with pr have "price = max 0 (base_price + sum_list addon_prices - diskon_rp)" by simp
  with bp ap show ?thesis by auto
qed

text \<open>
  C7. On a string, both parsers read the digits of the string in order, whatever
  separates them: with at least one digit the scaled parser returns 1000 times what the
  direct parser returns, and without a digit both return no value.
\<close>

theorem parsers_agree_on_text:
  "(filter is_digit s \<noteq> [] \<longrightarrow>
      parse_rp fs (CStr s) = Inr (Some (int_of_digits (filter is_digit s)))
    \<and> parse_thousands_to_rp fs (CStr s) = Inr (Some (int_of_digits (filter is_digit s) * 1000)))
   \<and> (filter is_digit s = [] \<longrightarrow>
      parse_rp fs (CStr s) = Inr None \<and> parse_thousands_to_rp fs (CStr s) = Inr None)"
  using parse_rp_text [of fs s] parse_thousands_text [of fs s]
  by (simp del: parse_rp.simps parse_thousands_to_rp.simps)


theorem compute_final_price_strict_witness:
  "split_sku_addons ''BASE1+PC+XX'' = (''BASE1'', [''PC'', ''XX''])
   \<and> ''XX'' \<in> set [''PC'', ''XX'']
   \<and> norm_key fs_ex (CStr ''XX'') \<noteq> []
   \<and> map_of [(''PC'', 500000 :: int)] (norm_key fs_ex (CStr ''XX'')) = None
   \<and> compute_final_price fs_ex ''BASE1+PC+XX'' [(''BASE1'', 9300000)] [(''PC'', 500000)] 0 = None"
proof -
  have 1: "split_sku_addons ''BASE1+PC+XX'' = (''BASE1'', [''PC'', ''XX''])" by code_simp
  have 2: "''XX'' \<in> set [''PC'', ''XX'']" by simp
  have 3: "norm_key fs_ex (CStr ''XX'') \<noteq> []" by code_simp
  have 4: "map_of [(''PC'', 500000 :: int)] (norm_key fs_ex (CStr ''XX'')) = None" by code_simp
  show ?thesis
    using compute_final_price_strict [OF 1 2 3 4, of "[(''BASE1'', 9300000)]" 0] 1 2 3 4 by blast
qed

theorem compute_final_price_value_witness:
  "compute_final_price fs_ex ''BASE1+PC'' [(''BASE1'', 9300000)] [(''PC'', 500000)] 300000 = Some 9500000
   \<and> split_sku_addons ''BASE1+PC'' = (''BASE1'', [''PC''])
   \<and> (\<exists>base_price addon_prices.
         map_of [(''BASE1'', 9300000)] (norm_key fs_ex (CStr ''BASE1'')) = Some base_price
       \<and> map (\<lambda>a. map_of [(''PC'', 500000)] (norm_key fs_ex (CStr a))) [''PC''] = map Some addon_prices
       \<and> (9500000 :: int) = max 0 (base_price + sum_list addon_prices - 300000)
       \<and> (0 :: int) \<le> 9500000
       \<and> (base_price + sum_list addon_prices < 300000 \<longrightarrow> (9500000 :: int) = 0))"
proof -
  have 1: "compute_final_price fs_ex ''BASE1+PC'' [(''BASE1'', 9300000)] [(''PC'', 500000)] 300000 = Some 9500000"
    by code_simp
  have 2: "split_sku_addons ''BASE1+PC'' = (''BASE1'', [''PC''])" by code_simp
  show ?thesis using compute_final_price_value [OF 1 2] 1 2 by blast
qed

theorem parsers_agree_on_text_witness:
  "filter is_digit ''Rp 23.699'' \<noteq> []
   \<and> parse_rp fs_ex (CStr ''Rp 23.699'') = Inr (Some 23699)
   \<and> parse_thousands_to_rp fs_ex (CStr ''Rp 23.699'') = Inr (Some 23699000)
   \<and> filter is_digit ''Rp -'' = []
   \<and> parse_rp fs_ex (CStr ''Rp -'') = Inr None
   \<and> parse_thousands_to_rp fs_ex (CStr ''Rp -'') = Inr None"
proof -
  have 1: "filter is_digit ''Rp 23.699'' = ''23699''" by code_simp
  have 2: "filter is_digit ''Rp -'' = []" by code_simp
  have 3: "int_of_digits ''23699'' = 23699" by code_simp
  show ?thesis
    using parsers_agree_on_text [of "''Rp 23.699''" fs_ex] parsers_agree_on_text [of "''Rp -''" fs_ex]
    by (simp only: 1 2 3) simp
qed


section \<open>Properties of the float operations\<close>

lemma nearest_even_of_int: "nearest_even (of_int n) = n"
  by (simp add: nearest_even_def)

lemma round_half_even_nearest:
  assumes "0 < d"
  shows "round_half_even n d = nearest_even (of_int n / of_int d)"
proof -
  have fl: "\<lfloor>(of_int n / of_int d :: rat)\<rfloor> = n div d"
    by (simp add: floor_divide_of_int_eq)
  have "(of_int n :: rat) = of_int (n div d) * of_int d + of_int (n mod d)"
    by (metis of_int_add of_int_mult div_mult_mod_eq)
  then have fr: "(of_int n / of_int d :: rat) - of_int (n div d) = of_int (n mod d) / of_int d"
    using assms by (simp add: field_simps)
  have lt: "(of_int (n mod d) / of_int d :: rat) < 1 / 2 \<longleftrightarrow> 2 * (n mod d) < d"
  proof -
    have "(of_int (n mod d) / of_int d :: rat) < 1 / 2 \<longleftrightarrow> (of_int (2 * (n mod d)) :: rat) < of_int d"
      using assms by (simp add: field_simps)
    then show ?thesis by (simp only: of_int_less_iff)
  qed
  have gt: "1 / 2 < (of_int (n mod d) / of_int d :: rat) \<longleftrightarrow> d < 2 * (n mod d)"
  proof -
    have "1 / 2 < (of_int (n mod d) / of_int d :: rat) \<longleftrightarrow> (of_int d :: rat) < of_int (2 * (n mod d))"
      using assms by (simp add: field_simps)
    then show ?thesis by (simp only: of_int_less_iff)
  qed
  show ?thesis
    unfolding round_half_even_def nearest_even_def Let_def fl fr lt gt by simp
qed

lemma fval_nonneg_exp: "0 \<le> e \<Longrightarrow> fval (Finite s m e) = of_int (smant s m * 2 ^ nat e)"
  by (simp add: power_int_def)

lemma fval_neg_exp: "e < 0 \<Longrightarrow> fval (Finite s m e) = of_int (smant s m) / of_int (2 ^ nat (- e))"
  by (simp add: power_int_def field_simps)

lemma py_round_finite: "py_round (Finite s m e) = Inr (nearest_even (fval (Finite s m e)))"
proof (cases "0 \<le> e")
  case True
  then show ?thesis by (simp only: fval_nonneg_exp nearest_even_of_int py_round.simps if_True)
next
  case False
  then have "e < 0" by simp
  then have "nearest_even (fval (Finite s m e)) = round_half_even (smant s m) (2 ^ nat (- e))"
    by (simp only: fval_neg_exp) (rule round_half_even_nearest [symmetric], simp)
  with False show ?thesis by simp
qed

lemma float_lt_int_fval: "float_lt_int (Finite s m e) k \<longleftrightarrow> fval (Finite s m e) < of_int k"
proof (cases "0 \<le> e")
  case True
  then show ?thesis by (simp only: fval_nonneg_exp float_lt_int.simps if_True of_int_less_iff)
next
  case False
  then have e: "e < 0" by simp
  have "fval (Finite s m e) < of_int k \<longleftrightarrow> (of_int (smant s m) :: rat) < of_int (k * 2 ^ nat (- e))"
    by (simp only: fval_neg_exp [OF e]) (simp add: field_simps)
  then show ?thesis using False by (simp only: of_int_less_iff float_lt_int.simps if_False)
qed

lemma smant_diff: "smant (a < b) (nat \<bar>a - b\<bar>) = a - b"
  by (simp add: smant_def)

lemma fval_float_sub_int:
  "fval (float_sub_int (Finite s m e) n) = fval (Finite s m e) - of_int n"
proof (cases "0 \<le> e")
  case True
  then show ?thesis by (simp add: Let_def power_int_def smant_diff)
next
  case False
  then show ?thesis
    by (simp add: Let_def smant_diff) (simp add: power_int_def field_simps)
qed

lemma float_sub_int_finite: "\<exists>s' m' e'. float_sub_int (Finite s m e) n = Finite s' m' e'"
  by (simp add: Let_def)

lemma fval_float_abs: "fval (float_abs (Finite s m e)) = \<bar>fval (Finite s m e)\<bar>"
  by (simp add: smant_def abs_mult)

lemma float_gt_fval:
  "float_gt (Finite s m e) (Finite s' m' e') \<longleftrightarrow> fval (Finite s' m' e') < fval (Finite s m e)"
proof -
  define e0 where "e0 = min e e'"
  have p: "(2::rat) powi e = 2 powi e0 * of_int (2 ^ nat (e - e0))"
    and p': "(2::rat) powi e' = 2 powi e0 * of_int (2 ^ nat (e' - e0))"
    by (simp_all add: e0_def power_int_def min_def field_simps flip: power_add)
       (auto simp: nat_diff_distrib' nat_add_distrib power_add field_simps)
  have pos: "(0::rat) < 2 powi e0" by simp
  have "fval (Finite s' m' e') < fval (Finite s m e) \<longleftrightarrow>
        2 powi e0 * (of_int (smant s' m' * 2 ^ nat (e' - e0)) :: rat)
          < 2 powi e0 * of_int (smant s m * 2 ^ nat (e - e0))"
    by (simp only: fval.simps p p') (simp add: mult_ac)
  also have "\<dots> \<longleftrightarrow> smant s' m' * 2 ^ nat (e' - e0) < smant s m * 2 ^ nat (e - e0)"
    using pos by (simp only: mult_less_cancel_left_pos of_int_less_iff)
  finally show ?thesis by (simp add: e0_def Let_def)
qed


lemma float_mul_int_finite: "\<exists>m' e'. float_mul_int (Finite s m e) k = Finite s m' e'"
  by (simp add: Let_def)

lemma parse_thousands_float:
  "parse_thousands_to_rp fs (CFloat (Finite s m e)) =
     Inr (Some ((if fval (Finite s m e) < 1000
                    \<and> fval float_1e_9 < \<bar>fval (Finite s m e) - of_int (nearest_even (fval (Finite s m e)))\<bar>
                 then nearest_even (fval (float_mul_int (Finite s m e) 1000))
                 else nearest_even (fval (Finite s m e))) * 1000))"
proof -
  define x where "x = Finite s m e"
  define r where "r = nearest_even (fval x)"
  have pr: "py_round x = Inr r" by (simp only: x_def r_def py_round_finite)
  have lt: "float_lt_int x 1000 \<longleftrightarrow> fval x < 1000"
    using float_lt_int_fval [of s m e 1000] by (simp add: x_def)
  obtain s' m' e' where sub: "float_sub_int x r = Finite s' m' e'"
    using float_sub_int_finite [of s m e r] by (auto simp: x_def)
  have "float_gt (float_abs (float_sub_int x r)) float_1e_9 \<longleftrightarrow>
        fval float_1e_9 < fval (float_abs (Finite s' m' e'))"
    unfolding sub float_1e_9_def float_abs.simps by (rule float_gt_fval)
  also have "fval (float_abs (Finite s' m' e')) = \<bar>fval (float_sub_int x r)\<bar>"
    by (simp only: fval_float_abs sub)
  also have "fval (float_sub_int x r) = fval x - of_int r"
    unfolding x_def by (rule fval_float_sub_int)
  finally have gt: "float_gt (float_abs (float_sub_int x r)) float_1e_9 \<longleftrightarrow>
      fval float_1e_9 < \<bar>fval x - of_int r\<bar>" .
  obtain m2 e2 where mul: "float_mul_int x 1000 = Finite s m2 e2"
    using float_mul_int_finite [of s m e 1000] by (auto simp: x_def)
  have pm: "py_round (float_mul_int x 1000) = Inr (nearest_even (fval (float_mul_int x 1000)))"
    by (simp only: mul py_round_finite)
  have nn: "\<not> is_nan x" by (simp add: x_def)
  have "parse_thousands_to_rp fs (CFloat x) =
      Inr (Some ((if fval x < 1000 \<and> fval float_1e_9 < \<bar>fval x - of_int r\<bar>
                  then nearest_even (fval (float_mul_int x 1000)) else r) * 1000))"
    by (simp only: parse_thousands_to_rp.simps nn pr lt gt pm if_False sum.case)
       (simp)
  then show ?thesis by (simp only: x_def r_def)
qed

lemma parse_rp_float:
  "parse_rp fs (CFloat (Finite s m e)) = Inr (Some (nearest_even (fval (Finite s m e))))"
  by (simp only: parse_rp.simps py_round_finite is_nan.simps if_False sum.case)

lemma nearest_even_nonneg: "0 \<le> q \<Longrightarrow> 0 \<le> nearest_even q"
  by (auto simp: nearest_even_def Let_def)

lemma fval_nonneg_iff: "0 \<le> fval (Finite s m e) \<longleftrightarrow> \<not> s \<or> m = 0"
proof -
  have "(0::rat) < 2 powi e" by simp
  then have "0 \<le> fval (Finite s m e) \<longleftrightarrow> (0::rat) \<le> of_int (smant s m)"
    by (simp add: zero_le_mult_iff not_le [symmetric] del: of_int_0_le_iff)
  then show ?thesis by (auto simp: smant_def)
qed

lemma bit_length_0: "bit_length 0 = 0"
  by (simp add: bit_length.simps)

lemma fval_float_mul_int_nonneg:
  assumes "0 \<le> fval (Finite s m e)"
  shows "0 \<le> fval (float_mul_int (Finite s m e) k)"
proof (cases s)
  case False
  obtain m' e' where eq: "float_mul_int (Finite s m e) k = Finite s m' e'"
    using float_mul_int_finite [of s m e k] by auto
  have "0 \<le> fval (Finite s m' e')" using False by (subst fval_nonneg_iff) simp
  then show ?thesis by (simp only: eq)
next
  case True
  with assms have "m = 0" by (simp only: fval_nonneg_iff) simp
  then show ?thesis by (simp add: Let_def smant_def bit_length_0)
qed

text \<open>
  C6. On a float, the scaled parser returns no value for NaN; for a finite float whose
  value is below 1000 (negative values of any magnitude included) and whose distance to
  the nearest integer exceeds \<open>1e-9\<close>, it returns 1000 times the integer nearest to the
  float product of the value and 1000; for every other finite float it returns 1000
  times the integer nearest to the value.
\<close>

theorem scaled_parser_on_floats:
  "parse_thousands_to_rp fs (CFloat NaN) = Inr None
   \<and> parse_thousands_to_rp fs (CFloat (Finite s m e)) =
       Inr (Some ((if fval (Finite s m e) < 1000
                      \<and> fval float_1e_9
                          < \<bar>fval (Finite s m e) - of_int (nearest_even (fval (Finite s m e)))\<bar>
                   then nearest_even (fval (float_mul_int (Finite s m e) 1000))
                   else nearest_even (fval (Finite s m e))) * 1000))"
  using parse_thousands_float [of fs s m e] by (simp del: parse_thousands_to_rp.simps fval.simps) simp

theorem scaled_parser_on_floats_witness:
  "parse_thousands_to_rp fs_ex (CFloat (Finite False 6670675473065837 (- 48))) = Inr (Some 23699000)
   \<and> parse_thousands_to_rp fs_ex (CFloat (Finite False 9300 0)) = Inr (Some 9300000)
   \<and> parse_thousands_to_rp fs_ex (CFloat NaN) = Inr None"
proof -
  have 1: "parse_thousands_to_rp fs_ex (CFloat (Finite False 6670675473065837 (- 48))) = Inr (Some 23699000)"
    by (simp add: float_1e_9_def smant_def round_half_even_def Let_def bit_length.simps)
  have 2: "parse_thousands_to_rp fs_ex (CFloat (Finite False 9300 0)) = Inr (Some 9300000)"
    by (simp add: float_1e_9_def smant_def round_half_even_def Let_def bit_length.simps)
  show ?thesis
    using scaled_parser_on_floats [of fs_ex False 6670675473065837 "- 48"] 1 2 by simp
qed

theorem scaled_parser_magnitude_counterexample:
  "parse_thousands_to_rp fs_ex (CFloat (Finite True 10001 (- 1))) = Inr (Some (- 5000500000))
   \<and> spec_scaled_float (Finite True 10001 (- 1)) = Inr (Some (- 5000000))"
proof -
  have 1: "parse_thousands_to_rp fs_ex (CFloat (Finite True 10001 (- 1))) = Inr (Some (- 5000500000))"
    by (simp add: float_1e_9_def smant_def round_half_even_def Let_def bit_length.simps)
  have v: "fval (Finite True 10001 (- 1)) = - 10001 / 2"
    by (simp add: smant_def power_int_minus)
  have "\<lfloor>(of_int (- 10001) / of_int 2 :: rat)\<rfloor> = (- 10001) div 2"
    by (rule floor_divide_of_int_eq)
  then have f: "\<lfloor>(- 10001 / 2 :: rat)\<rfloor> = - 5001" by simp
  have n: "nearest_even (- 10001 / 2) = - 5000"
    unfolding nearest_even_def Let_def f by simp
  have 2: "spec_scaled_float (Finite True 10001 (- 1)) = Inr (Some (- 5000000))"
    unfolding spec_scaled_float_def v n by simp
  show ?thesis using 1 2 by simp
qed

lemma parse_rp_other: "parse_rp fs (COther s) = parse_rp fs (CStr s)"
  by (simp add: norm_str_def)

lemma parse_thousands_other: "parse_thousands_to_rp fs (COther s) = parse_thousands_to_rp fs (CStr s)"
  by (simp add: norm_str_def)

lemma parse_thousands_nonneg:
  assumes "parse_thousands_to_rp fs v = Inr (Some a)" and "\<not> negative_number v"
  shows "0 \<le> a"
proof (cases v)
  case (CFloat x)
  show ?thesis
  proof (cases x)
    case (Finite s m e)
    from assms(2) CFloat Finite have nn: "0 \<le> fval (Finite s m e)" by simp
    have "0 \<le> nearest_even (fval (float_mul_int (Finite s m e) 1000))"
      using nn by (intro nearest_even_nonneg fval_float_mul_int_nonneg)
    moreover have "0 \<le> nearest_even (fval (Finite s m e))"
      using nn by (rule nearest_even_nonneg)
    ultimately show ?thesis
      using assms(1) unfolding CFloat Finite parse_thousands_float
      by (auto split: if_splits)
  qed (use assms CFloat in auto)
next
  case (CStr s)
  with assms(1) show ?thesis
    using int_of_digits_nonneg [of s] by (auto simp only: parse_thousands_text split: if_splits)
next
  case (COther s)
  with assms(1) show ?thesis
    using int_of_digits_nonneg [of s]
    by (auto simp only: parse_thousands_other parse_thousands_text split: if_splits)
qed (use assms in auto)

lemma parse_rp_nonneg:
  assumes "parse_rp fs v = Inr (Some b)" and "\<not> negative_number v"
  shows "0 \<le> b"
proof (cases v)
  case (CFloat x)
  show ?thesis
  proof (cases x)
    case (Finite s m e)
    from assms(2) CFloat Finite have nn: "0 \<le> fval (Finite s m e)" by simp
    then have "0 \<le> nearest_even (fval (Finite s m e))" by (rule nearest_even_nonneg)
    then show ?thesis
      using assms(1) unfolding CFloat Finite parse_rp_float by simp
  qed (use assms CFloat in auto)
next
  case (CStr s)
  with assms(1) show ?thesis
    using int_of_digits_nonneg [of s] by (auto simp only: parse_rp_text split: if_splits)
next
  case (COther s)
  with assms(1) show ?thesis
    using int_of_digits_nonneg [of s]
    by (auto simp only: parse_rp_other parse_rp_text split: if_splits)
qed (use assms in auto)

lemma compute_final_price_nonneg:
  "compute_final_price fs sku pricelist_map addon_map diskon_rp = Some p \<Longrightarrow> 0 \<le> p"
  by (auto simp: compute_final_price_def Let_def split: prod.splits if_splits option.splits)

text \<open>
  C8. An amount that a parser returns for a cell that does not hold a negative number
  (any text, and any integer or float that is not below zero) is a non-negative integer,
  and every price that the price resolver computes is a non-negative integer.
\<close>

theorem currency_amounts_nonneg:
  "(parse_thousands_to_rp fs v = Inr (Some a) \<and> \<not> negative_number v \<longrightarrow> 0 \<le> a)
   \<and> (parse_rp fs v = Inr (Some b) \<and> \<not> negative_number v \<longrightarrow> 0 \<le> b)
   \<and> (compute_final_price fs sku pricelist_map addon_map diskon_rp = Some p \<longrightarrow> 0 \<le> p)"
  using parse_thousands_nonneg [of fs v a] parse_rp_nonneg [of fs v b]
    compute_final_price_nonneg [of fs sku pricelist_map addon_map diskon_rp p]
  by blast

theorem currency_amounts_nonneg_witness:
  "parse_thousands_to_rp fs_ex (CInt 9300) = Inr (Some 9300000)
   \<and> \<not> negative_number (CInt 9300)
   \<and> parse_rp fs_ex (CInt 9300) = Inr (Some 9300)
   \<and> compute_final_price fs_ex ''BASE1'' [(''BASE1'', 9300000)] [] 10000000 = Some 0
   \<and> (0 :: int) \<le> 9300000 \<and> (0 :: int) \<le> 9300 \<and> (0 :: int) \<le> 0"
proof -
  have 1: "compute_final_price fs_ex ''BASE1'' [(''BASE1'', 9300000)] [] 10000000 = Some 0"
    by code_simp
  show ?thesis
    using currency_amounts_nonneg [of fs_ex "CInt 9300" 9300000 9300 "''BASE1''"
        "[(''BASE1'', 9300000)]" "[]" 10000000 0] 1
    by simp
qed

theorem negative_amount_counterexample:
  "parse_rp fs_ex (CInt (- 5)) = Inr (Some (- 5))
   \<and> parse_thousands_to_rp fs_ex (CInt (- 5)) = Inr (Some (- 5000))
   \<and> \<not> (0 :: int) \<le> - 5 \<and> \<not> (0 :: int) \<le> - 5000"
  by simp


section \<open>Properties of the header locator\<close>

lemma str_contains_sublist: "str_contains t k \<longleftrightarrow> sublist k t"
  by (induction t) (auto simp: sublist_Cons_right)

lemma upper_append: "upper (a @ b) = upper a @ upper b"
  by (simp add: upper_def)

lemma upper_py_join: "upper (py_join sep xs) = py_join (upper sep) (map upper xs)"
  by (induction sep xs rule: py_join.induct) (simp_all add: upper_append, simp add: upper_def)

lemma upper_separator: "upper '' | '' = '' | ''"
  by (simp add: upper_def upper_char_def)

lemma row_ok_matches: "row_ok fs ws groups r \<longleftrightarrow> row_matches fs ws groups r"
  by (simp add: row_ok_def row_matches_def row_text_def list_all_iff list_ex_iff
      str_contains_sublist upper_py_join upper_separator comp_def)

lemma find_upt_Some:
  "find P [1 ..< n] = Some r \<longleftrightarrow> 1 \<le> r \<and> r < n \<and> P r \<and> (\<forall>r'. 1 \<le> r' \<and> r' < r \<longrightarrow> \<not> P r')"
proof
  assume "find P [1 ..< n] = Some r"
  then obtain i where i: "i < length [1 ..< n]" and p: "P ([1 ..< n] ! i)"
    and r: "r = [1 ..< n] ! i" and least: "\<forall>j<i. \<not> P ([1 ..< n] ! j)"
    by (auto simp: find_Some_iff)
  from i r have r1: "r = 1 + i" and rn: "r < n" by auto
  have "\<not> P r'" if "1 \<le> r'" "r' < r" for r'
  proof -
    from that r1 have "r' - 1 < i" by simp
    with least have "\<not> P ([1 ..< n] ! (r' - 1))" by blast
    moreover have "[1 ..< n] ! (r' - 1) = r'" using that rn by simp
    ultimately show ?thesis by simp
  qed
  with p r r1 rn show "1 \<le> r \<and> r < n \<and> P r \<and> (\<forall>r'. 1 \<le> r' \<and> r' < r \<longrightarrow> \<not> P r')" by auto
next
  assume a: "1 \<le> r \<and> r < n \<and> P r \<and> (\<forall>r'. 1 \<le> r' \<and> r' < r \<longrightarrow> \<not> P r')"
  then have "r - 1 < length [1 ..< n]" and "[1 ..< n] ! (r - 1) = r" by auto
  moreover have "\<forall>j<r - 1. \<not> P ([1 ..< n] ! j)" using a by auto
  ultimately show "find P [1 ..< n] = Some r"
    using a unfolding find_Some_iff by (intro exI [of _ "r - 1"]) auto
qed

lemma find_upt_None: "find P [1 ..< n] = None \<longleftrightarrow> (\<forall>r. 1 \<le> r \<and> r < n \<longrightarrow> \<not> P r)"
  by (auto simp: find_None_iff)

lemma scan_window: "r < nat (k + 1) \<longleftrightarrow> int r \<le> k"
  by linarith

text \<open>
  C9. The header locator returns the first row, counted from 1 and within the first
  \<open>scan_rows\<close> rows of the sheet, in which every keyword group has a member that occurs
  as a case-insensitive substring of the joined text of the row; it returns \<open>None\<close>
  when the scan window, cut at the last row of the sheet, has no such row.
\<close>

theorem find_header_row_first_match:
  "(find_header_row fs ws groups scan_rows = Some r \<longleftrightarrow>
      1 \<le> r \<and> int r \<le> min scan_rows (int (max_row ws)) \<and> row_matches fs ws groups r
      \<and> (\<forall>r'. 1 \<le> r' \<and> r' < r \<longrightarrow> \<not> row_matches fs ws groups r'))
   \<and> (find_header_row fs ws groups scan_rows = None \<longleftrightarrow>
      (\<forall>r. 1 \<le> r \<and> int r \<le> min scan_rows (int (max_row ws)) \<longrightarrow> \<not> row_matches fs ws groups r))"
  unfolding find_header_row_def find_upt_Some find_upt_None scan_window row_ok_matches
  by simp

theorem find_header_row_first_match_witness:
  "find_header_row fs_ex pricelist_ex [[''KODEBARANG'', ''KODE BARANG''], [''M4'']] 80 = Some 2
   \<and> row_matches fs_ex pricelist_ex [[''KODEBARANG'', ''KODE BARANG''], [''M4'']] 2
   \<and> \<not> row_matches fs_ex pricelist_ex [[''KODEBARANG'', ''KODE BARANG''], [''M4'']] 1
   \<and> find_header_row fs_ex pricelist_ex [[''KODEBARANG'', ''KODE BARANG''], [''M4'']] 1 = None"
proof -
  have 1: "find_header_row fs_ex pricelist_ex [[''KODEBARANG'', ''KODE BARANG''], [''M4'']] 80 = Some 2"
    by code_simp
  have 2: "find_header_row fs_ex pricelist_ex [[''KODEBARANG'', ''KODE BARANG''], [''M4'']] 1 = None"
    by code_simp
  show ?thesis
    using find_header_row_first_match
      [of fs_ex pricelist_ex "[[''KODEBARANG'', ''KODE BARANG''], [''M4'']]" 80 2] 1 2
    by auto
qed


section \<open>Properties of the loaders\<close>

lemma addon_rows_append:
  "addon_rows fs ws cc pc (xs @ ys) m =
     (case addon_rows fs ws cc pc xs m of Inl err \<Rightarrow> Inl err | Inr m1 \<Rightarrow> addon_rows fs ws cc pc ys m1)"
  by (induction xs arbitrary: m) (auto simp: Let_def split: sum.splits option.splits)

lemma addon_rows_keyed:
  "keyed_row fs ws cc pc r = Some (k, p) \<Longrightarrow>
     addon_rows fs ws cc pc (r # rs) m = addon_rows fs ws cc pc rs (AList.update k p m)"
  by (auto simp: keyed_row_def Let_def split: if_splits sum.splits option.splits)

lemma addon_rows_other:
  "addon_rows fs ws cc pc rs m = Inr m' \<Longrightarrow> \<forall>r\<in>set rs. \<forall>p. keyed_row fs ws cc pc r \<noteq> Some (k, p)
     \<Longrightarrow> map_of m' k = map_of m k"
proof (induction rs arbitrary: m)
  case Nil
  then show ?case by simp
next
  case (Cons r rs)
  show ?case
  proof (cases "keyed_row fs ws cc pc r")
    case None
    then have "addon_rows fs ws cc pc (r # rs) m = addon_rows fs ws cc pc rs m
        \<or> (\<exists>e. addon_rows fs ws cc pc (r # rs) m = Inl e)"
      by (auto simp: keyed_row_def Let_def split: if_splits sum.splits option.splits)
    with Cons.prems(1) have "addon_rows fs ws cc pc rs m = Inr m'" by auto
    then show ?thesis using Cons.IH Cons.prems(2) by simp
  next
    case (Some kp)
    obtain k' p' where kp: "kp = (k', p')" by (cases kp)
    with Some Cons.prems(2) have ne: "k' \<noteq> k" by auto
    have "addon_rows fs ws cc pc rs (AList.update k' p' m) = Inr m'"
      using addon_rows_keyed [of fs ws cc pc r k' p' rs m] Some kp Cons.prems(1) by simp
    then have "map_of m' k = map_of (AList.update k' p' m) k"
      using Cons.IH Cons.prems(2) by simp
    with ne show ?thesis by (simp add: update_conv')
  qed
qed

lemma addon_rows_last:
  assumes "addon_rows fs ws cc pc (rs1 @ r # rs2) m = Inr m'"
    and "keyed_row fs ws cc pc r = Some (k, p)"
    and "\<forall>r'\<in>set rs2. \<forall>p'. keyed_row fs ws cc pc r' \<noteq> Some (k, p')"
  shows "map_of m' k = Some p"
proof -
  from assms(1) obtain m1 where "addon_rows fs ws cc pc rs1 m = Inr m1"
    and "addon_rows fs ws cc pc (r # rs2) m1 = Inr m'"
    by (auto simp: addon_rows_append split: sum.splits)
  then have "addon_rows fs ws cc pc rs2 (AList.update k p m1) = Inr m'"
    by (simp only: addon_rows_keyed [OF assms(2)])
  from addon_rows_other [OF this assms(3)] show ?thesis by (simp add: update_conv')
qed

lemma pl_rows_append:
  "pl_rows fs ws cc pc (xs @ ys) m =
     (case pl_rows fs ws cc pc xs m of Inl err \<Rightarrow> Inl err | Inr m1 \<Rightarrow> pl_rows fs ws cc pc ys m1)"
  by (induction xs arbitrary: m) (auto simp: Let_def split: sum.splits option.splits)

lemma pl_rows_keyed:
  "keyed_row fs ws cc pc r = Some (k, p) \<Longrightarrow> k \<noteq> ''TOTAL'' \<Longrightarrow>
     pl_rows fs ws cc pc (r # rs) m = pl_rows fs ws cc pc rs (AList.update k p m)"
  by (auto simp: keyed_row_def Let_def split: if_splits sum.splits option.splits)

lemma pl_rows_other:
  "pl_rows fs ws cc pc rs m = Inr m' \<Longrightarrow> \<forall>r\<in>set rs. \<forall>p. keyed_row fs ws cc pc r \<noteq> Some (k, p)
     \<Longrightarrow> map_of m' k = map_of m k"
proof (induction rs arbitrary: m)
  case Nil
  then show ?case by simp
next
  case (Cons r rs)
  show ?case
  proof (cases "\<exists>k' p'. keyed_row fs ws cc pc r = Some (k', p') \<and> k' \<noteq> ''TOTAL''")
    case False
    then have "pl_rows fs ws cc pc (r # rs) m = pl_rows fs ws cc pc rs m
        \<or> (\<exists>e. pl_rows fs ws cc pc (r # rs) m = Inl e)"
      by (auto simp: keyed_row_def Let_def split: if_splits sum.splits option.splits)
    with Cons.prems(1) have "pl_rows fs ws cc pc rs m = Inr m'" by auto
    then show ?thesis using Cons.IH Cons.prems(2) by simp
  next
    case True
    then obtain k' p' where kp: "keyed_row fs ws cc pc r = Some (k', p')" and t: "k' \<noteq> ''TOTAL''"
      by blast
    with Cons.prems(2) have ne: "k' \<noteq> k" by auto
    have "pl_rows fs ws cc pc rs (AList.update k' p' m) = Inr m'"
      using pl_rows_keyed [OF kp t, of rs m] Cons.prems(1) by simp
    then have "map_of m' k = map_of (AList.update k' p' m) k"
      using Cons.IH Cons.prems(2) by simp
    with ne show ?thesis by (simp add: update_conv')
  qed
qed

lemma pl_rows_last:
  assumes "pl_rows fs ws cc pc (rs1 @ r # rs2) m = Inr m'"
    and "keyed_row fs ws cc pc r = Some (k, p)" and "k \<noteq> ''TOTAL''"
    and "\<forall>r'\<in>set rs2. \<forall>p'. keyed_row fs ws cc pc r' \<noteq> Some (k, p')"
  shows "map_of m' k = Some p"
proof -
  from assms(1) obtain m1 where "pl_rows fs ws cc pc rs1 m = Inr m1"
    and "pl_rows fs ws cc pc (r # rs2) m1 = Inr m'"
    by (auto simp: pl_rows_append split: sum.splits)
  then have "pl_rows fs ws cc pc rs2 (AList.update k p m1) = Inr m'"
    by (simp only: pl_rows_keyed [OF assms(2,3)])
  from pl_rows_other [OF this assms(4)] show ?thesis by (simp add: update_conv')
qed

lemma data_rows_split:
  "h < r \<Longrightarrow> r \<le> n \<Longrightarrow> [h + 1 ..< n + 1] = [h + 1 ..< r] @ r # [r + 1 ..< n + 1]"
  by (metis Suc_eq_plus1 Suc_leI le_imp_less_Suc upt_conv_Cons upt_add_eq_append
      le_add_diff_inverse less_or_eq_imp_le)

lemma load_pricelist_map_rows:
  assumes "load_pricelist_map fs (Inr ws) = Inr (pl_map, h)"
  shows "\<exists>sku_col m4_col.
           pricelist_columns (map_headers fs ws h) = (Some sku_col, Some m4_col)
         \<and> pl_rows fs ws sku_col m4_col [h + 1 ..< max_row ws + 1] [] = Inr pl_map"
  using assms
  by (auto simp: load_pricelist_map_def load_workbook_def Let_def falsy_def
      split: option.splits prod.splits if_splits sum.splits)

lemma load_addon_map_rows:
  assumes "load_addon_map fs (Inr ws) = Inr addon_map"
  shows "\<exists>h code_col price_col.
           find_header_row fs ws
             [[''HARGA'', ''PRICE''], [''KODE'', ''VARIAN'', ''STANDARISASI'', ''ADDON'']] 80 = Some h
         \<and> addon_columns (map_headers fs ws h) = (Some code_col, Some price_col)
         \<and> addon_rows fs ws code_col price_col [h + 1 ..< max_row ws + 1] [] = Inr addon_map"
  using assms
  by (auto simp: load_addon_map_def load_workbook_def Let_def falsy_def
      split: option.splits prod.splits if_splits sum.splits)

text \<open>
  C10. In the map that a loader returns, the price of a code is the price of the last
  data row below the header whose code normalizes to it and whose price can be parsed:
  earlier rows with the same normalized code are overwritten. (The pricelist loader
  leaves out the rows whose code is \<open>TOTAL\<close>.)
\<close>

theorem last_row_wins:
  "(load_pricelist_map fs (Inr ws) = Inr (pl_map, h) \<longrightarrow>
      (\<exists>sku_col m4_col.
          pricelist_columns (map_headers fs ws h) = (Some sku_col, Some m4_col)
        \<and> (\<forall>r k p. h < r \<and> r \<le> max_row ws
               \<and> keyed_row fs ws sku_col m4_col r = Some (k, p) \<and> k \<noteq> ''TOTAL''
               \<and> (\<forall>r' p'. r < r' \<and> r' \<le> max_row ws
                     \<longrightarrow> keyed_row fs ws sku_col m4_col r' \<noteq> Some (k, p'))
             \<longrightarrow> map_of pl_map k = Some p)))
   \<and> (load_addon_map fs (Inr ws') = Inr addon_map \<longrightarrow>
      (\<exists>h' code_col price_col.
          find_header_row fs ws'
            [[''HARGA'', ''PRICE''], [''KODE'', ''VARIAN'', ''STANDARISASI'', ''ADDON'']] 80 = Some h'
        \<and> addon_columns (map_headers fs ws' h') = (Some code_col, Some price_col)
        \<and> (\<forall>r k p. h' < r \<and> r \<le> max_row ws'
               \<and> keyed_row fs ws' code_col price_col r = Some (k, p)
               \<and> (\<forall>r' p'. r < r' \<and> r' \<le> max_row ws'
                     \<longrightarrow> keyed_row fs ws' code_col price_col r' \<noteq> Some (k, p'))
             \<longrightarrow> map_of addon_map k = Some p)))"
proof (intro conjI impI)
  assume "load_pricelist_map fs (Inr ws) = Inr (pl_map, h)"
  from load_pricelist_map_rows [OF this] obtain sku_col m4_col where
    cols: "pricelist_columns (map_headers fs ws h) = (Some sku_col, Some m4_col)"
    and rows: "pl_rows fs ws sku_col m4_col [h + 1 ..< max_row ws + 1] [] = Inr pl_map"
    by blast
  have "map_of pl_map k = Some p"
    if "h < r" "r \<le> max_row ws" "keyed_row fs ws sku_col m4_col r = Some (k, p)" "k \<noteq> ''TOTAL''"
      "\<forall>r' p'. r < r' \<and> r' \<le> max_row ws \<longrightarrow> keyed_row fs ws sku_col m4_col r' \<noteq> Some (k, p')"
    for r k p
  proof -
    have "pl_rows fs ws sku_col m4_col ([h + 1 ..< r] @ r # [r + 1 ..< max_row ws + 1]) [] = Inr pl_map"
      using rows data_rows_split [OF that(1,2)] by simp
    moreover have "\<forall>r'\<in>set [r + 1 ..< max_row ws + 1]. \<forall>p'.
        keyed_row fs ws sku_col m4_col r' \<noteq> Some (k, p')"
      using that(5) by auto
    ultimately show ?thesis using that(3,4) by (blast intro: pl_rows_last)
  qed
  with cols show "\<exists>sku_col m4_col.
          pricelist_columns (map_headers fs ws h) = (Some sku_col, Some m4_col)
        \<and> (\<forall>r k p. h < r \<and> r \<le> max_row ws
               \<and> keyed_row fs ws sku_col m4_col r = Some (k, p) \<and> k \<noteq> ''TOTAL''
               \<and> (\<forall>r' p'. r < r' \<and> r' \<le> max_row ws
                     \<longrightarrow> keyed_row fs ws sku_col m4_col r' \<noteq> Some (k, p'))
             \<longrightarrow> map_of pl_map k = Some p)"
    by blast
next
  assume "load_addon_map fs (Inr ws') = Inr addon_map"
  from load_addon_map_rows [OF this] obtain h' code_col price_col where
    hdr: "find_header_row fs ws'
            [[''HARGA'', ''PRICE''], [''KODE'', ''VARIAN'', ''STANDARISASI'', ''ADDON'']] 80 = Some h'"
    and cols: "addon_columns (map_headers fs ws' h') = (Some code_col, Some price_col)"
    and rows: "addon_rows fs ws' code_col price_col [h' + 1 ..< max_row ws' + 1] [] = Inr addon_map"
    by blast
  have "map_of addon_map k = Some p"
    if "h' < r" "r \<le> max_row ws'" "keyed_row fs ws' code_col price_col r = Some (k, p)"
      "\<forall>r' p'. r < r' \<and> r' \<le> max_row ws' \<longrightarrow> keyed_row fs ws' code_col price_col r' \<noteq> Some (k, p')"
    for r k p
  proof -
    have "addon_rows fs ws' code_col price_col ([h' + 1 ..< r] @ r # [r + 1 ..< max_row ws' + 1]) []
          = Inr addon_map"
      using rows data_rows_split [OF that(1,2)] by simp
    moreover have "\<forall>r'\<in>set [r + 1 ..< max_row ws' + 1]. \<forall>p'.
        keyed_row fs ws' code_col price_col r' \<noteq> Some (k, p')"
      using that(4) by auto
    ultimately show ?thesis using that(3) by (blast intro: addon_rows_last)
  qed
  with hdr cols show "\<exists>h' code_col price_col.
          find_header_row fs ws'
            [[''HARGA'', ''PRICE''], [''KODE'', ''VARIAN'', ''STANDARISASI'', ''ADDON'']] 80 = Some h'
        \<and> addon_columns (map_headers fs ws' h') = (Some code_col, Some price_col)
        \<and> (\<forall>r k p. h' < r \<and> r \<le> max_row ws'
               \<and> keyed_row fs ws' code_col price_col r = Some (k, p)
               \<and> (\<forall>r' p'. r < r' \<and> r' \<le> max_row ws'
                     \<longrightarrow> keyed_row fs ws' code_col price_col r' \<noteq> Some (k, p'))
             \<longrightarrow> map_of addon_map k = Some p)"
    by blast
qed

theorem last_row_wins_witness:
  "load_pricelist_map fs_ex (Inr pricelist_ex) = Inr ([(''BASE1'', 9300000)], 2)
   \<and> pricelist_columns (map_headers fs_ex pricelist_ex 2) = (Some 2, Some 3)
   \<and> keyed_row fs_ex pricelist_ex 2 3 3 = Some (''BASE1'', 9000000)
   \<and> keyed_row fs_ex pricelist_ex 2 3 4 = Some (''BASE1'', 9300000)
   \<and> keyed_row fs_ex pricelist_ex 2 3 5 = Some (''TOTAL'', 18300000)
   \<and> map_of [(''BASE1'', 9300000 :: int)] ''BASE1'' = Some 9300000
   \<and> load_addon_map fs_ex (Inr addon_ex) = Inr [(''PC'', 500000)]
   \<and> keyed_row fs_ex addon_ex 1 2 2 = Some (''PC'', 400000)
   \<and> keyed_row fs_ex addon_ex 1 2 3 = Some (''PC'', 500000)
   \<and> map_of [(''PC'', 500000 :: int)] ''PC'' = Some 500000"
proof -
  have 1: "load_pricelist_map fs_ex (Inr pricelist_ex) = Inr ([(''BASE1'', 9300000)], 2)"
    by code_simp
  have 2: "pricelist_columns (map_headers fs_ex pricelist_ex 2) = (Some 2, Some 3)"
    by code_simp
  have 3: "keyed_row fs_ex pricelist_ex 2 3 3 = Some (''BASE1'', 9000000)" by code_simp
  have 4: "keyed_row fs_ex pricelist_ex 2 3 4 = Some (''BASE1'', 9300000)" by code_simp
  have 5: "keyed_row fs_ex pricelist_ex 2 3 5 = Some (''TOTAL'', 18300000)" by code_simp
  have 6: "load_addon_map fs_ex (Inr addon_ex) = Inr [(''PC'', 500000)]" by code_simp
  have 7: "keyed_row fs_ex addon_ex 1 2 2 = Some (''PC'', 400000)" by code_simp
  have 8: "keyed_row fs_ex addon_ex 1 2 3 = Some (''PC'', 500000)" by code_simp
  show ?thesis
    using last_row_wins [of fs_ex pricelist_ex "[(''BASE1'', 9300000)]" 2 addon_ex "[(''PC'', 500000)]"]
      1 2 3 4 5 6 7 8
    by simp
qed


section \<open>Properties of the batch reconciler\<close>

lemma length_pad: "length (pad n x xs) = max n (length xs)"
  by (simp add: pad_def)

lemma pad_split: "length xs < n \<Longrightarrow> pad n x xs = pad (n - 1) x xs @ [x]"
proof -
  assume "length xs < n"
  then have "n - length xs = Suc (n - 1 - length xs)" by simp
  then show ?thesis by (simp add: pad_def replicate_append_same)
qed

lemma pad_full: "n \<le> length xs \<Longrightarrow> pad n x xs = xs"
  by (simp add: pad_def)

lemma update_last: "length B = n \<Longrightarrow> (B @ [y])[n := x] = B @ [x]"
  by auto

lemma nth_last: "length B = n \<Longrightarrow> (B @ [y]) ! n = y"
  by auto

lemma set_cell_new_row:
  assumes "length out < wr"
  shows "set_cell out wr c v = pad (wr - 1) [] out @ [(pad c CNone [])[c - 1 := v]]"
proof -
  have len: "length (pad (wr - 1) [] out) = wr - 1" using assms by (simp add: length_pad)
  have p: "pad wr [] out = pad (wr - 1) [] out @ [[]]" using assms by (rule pad_split)
  show ?thesis
    unfolding set_cell_def Let_def p by (simp only: nth_last [OF len] update_last [OF len])
qed

lemma set_cell_last_row:
  assumes "length B = wr - 1" and "1 \<le> wr"
  shows "set_cell (B @ [cells]) wr c v = B @ [(pad c CNone cells)[c - 1 := v]]"
proof -
  have p: "pad wr [] (B @ [cells]) = B @ [cells]" using assms by (simp add: pad_full)
  show ?thesis
    unfolding set_cell_def Let_def p
    by (simp only: nth_last [OF assms(1)] update_last [OF assms(1)])
qed

lemma copy_row_values_new_row:
  assumes "length out < wr" and "1 \<le> n"
  shows "copy_row_values out wr ws r n = pad (wr - 1) [] out @ [map (cell_value ws r) [1 ..< n + 1]]"
  using assms(2)
proof (induction n rule: nat_induct_at_least)
  case base
  show ?case
    by (simp add: copy_row_values_def set_cell_new_row [OF assms(1)] pad_def)
next
  case (Suc n)
  have len: "length (pad (wr - 1) [] out) = wr - 1" using assms(1) by (simp add: length_pad)
  have wr: "1 \<le> wr" using assms(1) by simp
  have "copy_row_values out wr ws r (Suc n) =
      set_cell (copy_row_values out wr ws r n) wr (Suc n) (cell_value ws r (Suc n))"
    by (simp add: copy_row_values_def)
  also have "\<dots> = pad (wr - 1) [] out
      @ [(pad (Suc n) CNone (map (cell_value ws r) [1 ..< n + 1]))[n := cell_value ws r (Suc n)]]"
    by (simp only: Suc.IH set_cell_last_row [OF len wr]) simp
  also have "(pad (Suc n) CNone (map (cell_value ws r) [1 ..< n + 1]))[n := cell_value ws r (Suc n)]
      = map (cell_value ws r) [1 ..< Suc n + 1]"
    by (simp add: pad_def list_update_append)
  finally show ?case .
qed

lemma write_output_row_out:
  assumes "length (out_ws st) < write_row st"
  shows "out_ws (write_output_row st ws r max_col p)
           = pad (write_row st - 1) [] (out_ws st) @ [output_row ws r max_col p]"
proof -
  have ins: "insert_rows (out_ws st) (write_row st) n = out_ws st" for n
    using assms by (simp add: insert_rows_def)
  have len: "length (pad (write_row st - 1) [] (out_ws st)) = write_row st - 1"
    using assms by (simp add: length_pad)
  have wr: "1 \<le> write_row st" using assms by simp
  show ?thesis
  proof (cases "max_col = 0")
    case True
    then show ?thesis
      by (simp add: write_output_row_def Let_def ins copy_row_values_def output_row_def
          set_cell_new_row [OF assms])
  next
    case False
    then have mc: "1 \<le> max_col" by simp
    define B where "B = pad (write_row st - 1) [] (out_ws st)"
    define cells where "cells = map (cell_value ws r) [1 ..< max_col + 1]"
    have c: "copy_row_values (out_ws st) (write_row st) ws r max_col = B @ [cells]"
      using copy_row_values_new_row [OF assms mc] by (simp only: B_def cells_def)
    have "out_ws (write_output_row st ws r max_col p)
        = set_cell (B @ [cells]) (write_row st) PRICE_COL (CInt p)"
      by (simp add: write_output_row_def Let_def ins c)
    also have "\<dots> = B @ [(pad PRICE_COL CNone cells)[PRICE_COL - 1 := CInt p]]"
      using len wr unfolding B_def by (rule set_cell_last_row)
    finally show ?thesis by (simp only: B_def cells_def output_row_def)
  qed
qed

lemma write_output_row_state_after:
  "write_output_row (state_after first_ws rows) ws r max_col p
     = state_after first_ws (rows @ [output_row ws r max_col p])"
proof -
  let ?st = "state_after first_ws rows"
  have l: "length (out_ws ?st) < write_row ?st"
    by (auto simp: state_after_def DATA_START_ROW_def length_pad min_def)
  have "pad (write_row ?st - 1) [] (out_ws ?st) = pad 6 [] (take 6 first_ws) @ rows"
    by (auto simp: state_after_def DATA_START_ROW_def pad_full length_pad)
  with write_output_row_out [OF l, of ws r max_col p]
  have "out_ws (write_output_row ?st ws r max_col p)
      = pad 6 [] (take 6 first_ws) @ rows @ [output_row ws r max_col p]" by simp
  moreover have "write_row (write_output_row ?st ws r max_col p) = write_row ?st + 1"
    and "total_updated (write_output_row ?st ws r max_col p) = total_updated ?st + 1"
    by (simp_all add: write_output_row_def Let_def)
  ultimately show ?thesis
    by (simp add: state_after_def)
qed

lemma row_step_decision:
  "row_step fs pricelist_map addon_map diskon_rp max_col ws r st =
     (case row_decision fs pricelist_map addon_map diskon_rp ws r of
        Inl err \<Rightarrow> Inl err
      | Inr None \<Rightarrow> Inr st
      | Inr (Some p) \<Rightarrow> Inr (write_output_row st ws r max_col p))"
  by (auto simp: row_step_def row_decision_def Let_def split: sum.splits option.splits)

lemma process_rows_state_after:
  "process_rows fs pricelist_map addon_map diskon_rp max_col ws rs (state_after first_ws rows) =
     (state_after first_ws
        (rows @ fst (selected_rows fs pricelist_map addon_map diskon_rp max_col ws rs)),
      snd (selected_rows fs pricelist_map addon_map diskon_rp max_col ws rs))"
proof (induction rs arbitrary: rows)
  case Nil
  show ?case by simp
next
  case (Cons r rs)
  show ?case
    by (cases "row_decision fs pricelist_map addon_map diskon_rp ws r")
       (auto simp: row_step_decision write_output_row_state_after Cons.IH split: option.splits)
qed

lemma process_file_state_after:
  "process_file fs pricelist_map addon_map diskon_rp max_col (state_after first_ws rows, issues) f =
     (state_after first_ws (rows @ fst (file_result fs pricelist_map addon_map diskon_rp max_col f)),
      issues @ snd (file_result fs pricelist_map addon_map diskon_rp max_col f))"
proof (cases f)
  case (Pair fname fbytes)
  show ?thesis
  proof (cases "load_workbook fbytes")
    case (Inl err)
    with Pair show ?thesis by (simp add: process_file_def file_result_def)
  next
    case (Inr ws)
    with Pair show ?thesis
      by (simp add: process_file_def file_result_def process_rows_state_after
          split: prod.splits option.splits)
  qed
qed

lemma process_files_state_after:
  "foldl (process_file fs pricelist_map addon_map diskon_rp max_col)
      (state_after first_ws rows, issues) files =
     (state_after first_ws
        (rows @ concat (map (\<lambda>f. fst (file_result fs pricelist_map addon_map diskon_rp max_col f)) files)),
      issues @ concat (map (\<lambda>f. snd (file_result fs pricelist_map addon_map diskon_rp max_col f)) files))"
  by (induction files arbitrary: rows issues) (simp_all add: process_file_state_after)

lemma initial_output: 
  "(if DATA_START_ROW \<le> max_row first_ws
    then delete_rows first_ws DATA_START_ROW (max_row first_ws - DATA_START_ROW + 1)
    else first_ws) = take 6 first_ws"
  by (auto simp: DATA_START_ROW_def max_row_def delete_rows_def max_def split: if_splits)

lemma initial_state:
  "\<lparr>out_ws = take 6 first_ws, write_row = DATA_START_ROW, total_updated = 0\<rparr>
     = state_after first_ws []"
  by (simp add: state_after_def)

lemma process_shopee_files_result:
  assumes "load_pricelist_map fs pl_bytes = Inr (pricelist_map, h)"
    and "(case addon_bytes of None \<Rightarrow> Inr [] | Some b \<Rightarrow> load_addon_map fs b) = Inr addon_map"
    and "mass_files = (first_name, Inr first_ws) # rest"
  shows "process_shopee_files fs mass_files pl_bytes addon_bytes diskon_rp =
     (let results = map (file_result fs pricelist_map addon_map diskon_rp (max_column first_ws)) mass_files;
          rows = concat (map fst results);
          issues = concat (map snd results)
      in Inr (if rows = [] then take 6 first_ws else pad 6 [] (take 6 first_ws) @ rows,
              if rows = [] then issues @ [empty_result_notice] else issues))"
proof -
  define max_col where "max_col = max_column first_ws"
  define rows where
    "rows = concat (map (\<lambda>f. fst (file_result fs pricelist_map addon_map diskon_rp max_col f)) mass_files)"
  define issues where
    "issues = concat (map (\<lambda>f. snd (file_result fs pricelist_map addon_map diskon_rp max_col f)) mass_files)"
  have run: "foldl (process_file fs pricelist_map addon_map diskon_rp max_col)
      (state_after first_ws [], []) mass_files = (state_after first_ws rows, issues)"
    by (simp only: process_files_state_after rows_def issues_def append_Nil)
  have "process_shopee_files fs mass_files pl_bytes addon_bytes diskon_rp =
      Inr (out_ws (state_after first_ws rows),
           if total_updated (state_after first_ws rows) = 0 then issues @ [empty_result_notice]
           else issues)"
    unfolding process_shopee_files_def assms(1) assms(2)
    by (simp only: assms(3) load_workbook_def initial_output initial_state
        max_col_def [symmetric] run [unfolded assms(3)] Let_def sum.case prod.case list.case fst_conv snd_conv)
  then show ?thesis
    by (simp add: state_after_def Let_def rows_def issues_def max_col_def comp_def)
qed

text \<open>
  C4. Provided the first file, which is the template of the output, loads: every
  mass-update file contributes to the result what it contributes on its own,
  whatever happens to the other files. A file that fails to load contributes exactly
  one issue record with its name and the description of the exception; a file that
  raises in a row contributes the rows written before that row and one such issue
  record; the rows of all files follow the template in the order of the files.
\<close>

theorem file_failures_isolated:
  assumes "load_pricelist_map fs pl_bytes = Inr (pricelist_map, h)"
    and "(case addon_bytes of None \<Rightarrow> Inr [] | Some b \<Rightarrow> load_addon_map fs b) = Inr addon_map"
    and "mass_files = (first_name, Inr first_ws) # rest"
  shows "process_shopee_files fs mass_files pl_bytes addon_bytes diskon_rp =
     (let results = map (file_result fs pricelist_map addon_map diskon_rp (max_column first_ws)) mass_files;
          rows = concat (map fst results);
          issues = concat (map snd results)
      in Inr (if rows = [] then take 6 first_ws else pad 6 [] (take 6 first_ws) @ rows,
              if rows = [] then issues @ [empty_result_notice] else issues))
    \<and> file_result fs pricelist_map addon_map diskon_rp (max_column first_ws) (fname, Inl err)
        = ([], [\<lparr>i_file = fname, i_row = [], i_sku_full = [], i_base_sku = [],
                  i_reason = ''Gagal proses file: '' @ describe err\<rparr>])"
  using process_shopee_files_result [OF assms]
  by (simp add: file_result_def load_workbook_def file_issue_def)

theorem file_failures_isolated_witness:
  "load_pricelist_map fs_ex (Inr pricelist_ex) = Inr ([(''BASE1'', 9300000)], 2)
   \<and> (case Some (Inr addon_ex) of None \<Rightarrow> Inr [] | Some b \<Rightarrow> load_addon_map fs_ex b)
       = Inr [(''PC'', 500000)]
   \<and> process_shopee_files fs_ex
         [(''a.xlsx'', Inr mass_ex_a), (''bad.xlsx'', Inl (LoadError ''File is not a zip file'')),
          (''b.xlsx'', Inr mass_ex_b)]
         (Inr pricelist_ex) (Some (Inr addon_ex)) 0
       = Inr ([[CStr ''Mass Update''], [], [CStr ''Product'', CStr ''SKU'', CStr ''Price''], [], [], [],
               [CInt 1, CNone, CNone, CNone, CNone, CStr ''BASE1'', CInt 9300000],
               [CInt 7, CNone, CNone, CNone, CNone, CStr ''Base1 + PC'', CInt 9800000]],
              [\<lparr>i_file = ''bad.xlsx'', i_row = [], i_sku_full = [], i_base_sku = [],
                i_reason = ''Gagal proses file: File is not a zip file''\<rparr>])"
proof -
  have h1: "load_pricelist_map fs_ex (Inr pricelist_ex) = Inr ([(''BASE1'', 9300000)], 2)"
    by code_simp
  have h2: "(case Some (Inr addon_ex) of None \<Rightarrow> Inr [] | Some b \<Rightarrow> load_addon_map fs_ex b)
      = Inr [(''PC'', 500000)]"
    by code_simp
  have h3: "[(''a.xlsx'', Inr mass_ex_a), (''bad.xlsx'', Inl (LoadError ''File is not a zip file'')),
             (''b.xlsx'', Inr mass_ex_b)]
      = (''a.xlsx'', Inr mass_ex_a)
          # [(''bad.xlsx'', Inl (LoadError ''File is not a zip file'')), (''b.xlsx'', Inr mass_ex_b)]"
    by simp
  have ev: "(let results = map (file_result fs_ex [(''BASE1'', 9300000)] [(''PC'', 500000)] 0
                              (max_column mass_ex_a))
                [(''a.xlsx'', Inr mass_ex_a), (''bad.xlsx'', Inl (LoadError ''File is not a zip file'')),
                 (''b.xlsx'', Inr mass_ex_b)];
            rows = concat (map fst results);
            issues = concat (map snd results)
        in Inr (if rows = [] then take 6 mass_ex_a else pad 6 [] (take 6 mass_ex_a) @ rows,
                if rows = [] then issues @ [empty_result_notice] else issues))
      = (Inr ([[CStr ''Mass Update''], [], [CStr ''Product'', CStr ''SKU'', CStr ''Price''], [], [], [],
               [CInt 1, CNone, CNone, CNone, CNone, CStr ''BASE1'', CInt 9300000],
               [CInt 7, CNone, CNone, CNone, CNone, CStr ''Base1 + PC'', CInt 9800000]],
              [\<lparr>i_file = ''bad.xlsx'', i_row = [], i_sku_full = [], i_base_sku = [],
                i_reason = ''Gagal proses file: File is not a zip file''\<rparr>])
         :: error + worksheet \<times> issue list)"
    by code_simp
  from file_failures_isolated [OF h1 h2 h3, of 0 "''bad.xlsx''" "LoadError ''File is not a zip file''"]
  have "process_shopee_files fs_ex
         [(''a.xlsx'', Inr mass_ex_a), (''bad.xlsx'', Inl (LoadError ''File is not a zip file'')),
          (''b.xlsx'', Inr mass_ex_b)]
         (Inr pricelist_ex) (Some (Inr addon_ex)) 0
      = (let results = map (file_result fs_ex [(''BASE1'', 9300000)] [(''PC'', 500000)] 0
                              (max_column mass_ex_a))
                [(''a.xlsx'', Inr mass_ex_a), (''bad.xlsx'', Inl (LoadError ''File is not a zip file'')),
                 (''b.xlsx'', Inr mass_ex_b)];
            rows = concat (map fst results);
            issues = concat (map snd results)
        in Inr (if rows = [] then take 6 mass_ex_a else pad 6 [] (take 6 mass_ex_a) @ rows,
                if rows = [] then issues @ [empty_result_notice] else issues))"
    by (rule conjunct1)
  then have "process_shopee_files fs_ex
         [(''a.xlsx'', Inr mass_ex_a), (''bad.xlsx'', Inl (LoadError ''File is not a zip file'')),
          (''b.xlsx'', Inr mass_ex_b)]
         (Inr pricelist_ex) (Some (Inr addon_ex)) 0
       = Inr ([[CStr ''Mass Update''], [], [CStr ''Product'', CStr ''SKU'', CStr ''Price''], [], [], [],
               [CInt 1, CNone, CNone, CNone, CNone, CStr ''BASE1'', CInt 9300000],
               [CInt 7, CNone, CNone, CNone, CNone, CStr ''Base1 + PC'', CInt 9800000]],
              [\<lparr>i_file = ''bad.xlsx'', i_row = [], i_sku_full = [], i_base_sku = [],
                i_reason = ''Gagal proses file: File is not a zip file''\<rparr>])"
    by (simp only: ev)
  with h1 h2 show ?thesis by (intro conjI)
qed

theorem first_file_failure_counterexample:
  "process_shopee_files fs_ex
      [(''bad.xlsx'', Inl (LoadError ''File is not a zip file'')), (''a.xlsx'', Inr mass_ex_a)]
      (Inr pricelist_ex) (Some (Inr addon_ex)) 0
    = Inl (LoadError ''File is not a zip file'')"
  by code_simp

text \<open>
  C5. Called with an empty list of mass-update files, \<open>process_shopee_files\<close> never
  returns a result: it fails with the error of the pricelist loader or of the addon
  loader when the reference data does not load, and otherwise with the \<open>IndexError\<close>
  raised on taking the first file.
\<close>

theorem empty_mass_files_fail:
  "process_shopee_files fs [] pl_bytes addon_bytes diskon_rp =
     (case load_pricelist_map fs pl_bytes of
        Inl err \<Rightarrow> Inl err
      | Inr loaded \<Rightarrow>
          (case (case addon_bytes of None \<Rightarrow> Inr [] | Some b \<Rightarrow> load_addon_map fs b) of
             Inl err \<Rightarrow> Inl err
           | Inr addon_map \<Rightarrow> Inl IndexError))
   \<and> (\<exists>err. process_shopee_files fs [] pl_bytes addon_bytes diskon_rp = Inl err)"
  by (auto simp: process_shopee_files_def split: sum.splits prod.splits option.splits)

theorem empty_mass_files_fail_witness:
  "process_shopee_files fs_ex [] (Inl (LoadError ''File is not a zip file'')) None 0
     = Inl (LoadError ''File is not a zip file'')"
  using empty_mass_files_fail [of fs_ex "Inl (LoadError ''File is not a zip file'')" None 0]
  by (simp add: load_pricelist_map_def load_workbook_def)

theorem empty_mass_files_counterexample:
  "process_shopee_files fs_ex [] (Inr pricelist_ex) None 0 = Inl IndexError
   \<and> \<not> is_configuration_error IndexError"
proof -
  have "process_shopee_files fs_ex [] (Inr pricelist_ex) None 0 = Inl IndexError"
    by code_simp
  then show ?thesis by simp
qed

lemma unchanged_price_not_written:
  assumes "norm_str fs (cell_value ws r SKU_COL) \<noteq> []"
    and "parse_rp fs (cell_value ws r PRICE_COL) = Inr (Some p)"
    and "compute_final_price fs (norm_str fs (cell_value ws r SKU_COL)) pricelist_map addon_map diskon_rp
           = Some p"
  shows "row_step fs pricelist_map addon_map diskon_rp max_col ws r st = Inr st"
  using assms by (simp add: row_step_def Let_def)

lemma missing_price_written:
  assumes "norm_str fs (cell_value ws r SKU_COL) \<noteq> []"
    and "parse_rp fs (cell_value ws r PRICE_COL) = Inr None"
    and "compute_final_price fs (norm_str fs (cell_value ws r SKU_COL)) pricelist_map addon_map diskon_rp
           = Some p"
  shows "row_step fs pricelist_map addon_map diskon_rp max_col ws r st
           = Inr (write_output_row st ws r max_col p)"
  using assms by (simp add: row_step_def Let_def)

text \<open>
  C3. Two mass-update files, the second one column wider than the first: the data row
  of the second file has no price, a price is computed for it and an output row is
  written, but the value in its eighth column is not copied, because the loop that
  copies the values stops at the last column of the first file.
\<close>

theorem wider_source_row_truncated:
  "process_shopee_files fs_ex [(''a.xlsx'', Inr mass_ex_a), (''b.xlsx'', Inr mass_ex_b)]
      (Inr pricelist_ex) (Some (Inr addon_ex)) 0
    = Inr ([[CStr ''Mass Update''], [], [CStr ''Product'', CStr ''SKU'', CStr ''Price''], [], [], [],
            [CInt 1, CNone, CNone, CNone, CNone, CStr ''BASE1'', CInt 9300000],
            [CInt 7, CNone, CNone, CNone, CNone, CStr ''Base1 + PC'', CInt 9800000]],
           [])
   \<and> cell_value mass_ex_b 7 8 = CStr ''note''
   \<and> parse_rp fs_ex (cell_value mass_ex_b 7 PRICE_COL) = Inr None"
proof -
  have 1: "process_shopee_files fs_ex [(''a.xlsx'', Inr mass_ex_a), (''b.xlsx'', Inr mass_ex_b)]
      (Inr pricelist_ex) (Some (Inr addon_ex)) 0
    = Inr ([[CStr ''Mass Update''], [], [CStr ''Product'', CStr ''SKU'', CStr ''Price''], [], [], [],
            [CInt 1, CNone, CNone, CNone, CNone, CStr ''BASE1'', CInt 9300000],
            [CInt 7, CNone, CNone, CNone, CNone, CStr ''Base1 + PC'', CInt 9800000]],
           [])"
    by code_simp
  have 2: "cell_value mass_ex_b 7 8 = CStr ''note''" by code_simp
  have 3: "parse_rp fs_ex (cell_value mass_ex_b 7 PRICE_COL) = Inr None" by code_simp
  from 1 2 3 show ?thesis by (intro conjI)
qed

end
